theory Spec2Isabelle
  imports Main "HOL-Library.AList" "HOL-Library.List_Lexorder" "HOL-Library.Char_ord"
    "HOL-Library.Multiset"
begin

section \<open>Data model of \<open>script/build.js\<close>\<close>

text \<open>
  A language record, as the build script passes it around. The registry supplies
  \<open>iso6393\<close>, \<open>name\<close> and \<open>type\<close>; the script adds \<open>speakers\<close> (a number, or
  \<open>undefined\<close> = \<open>None\<close> when the speaker table has no entry), \<open>udhr\<close> (the declaration
  key, \<open>undefined\<close> when no key was found) and \<open>script\<close>. The JavaScript property
  \<open>info.script\<close> first holds the array of qualifying script names and is then
  overwritten with its first element; the record keeps the array in \<open>scripts\<close> and the
  final value in \<open>script\<close>.
\<close>

record info =
  iso6393 :: string
  name :: string
  type :: string
  speakers :: "int option"
  udhr :: "string option"
  scripts :: "string list"
  script :: "string option"

text \<open>A compiled pattern: its source text and its flags.\<close>

datatype RegExp = RegExp (source: string) (flags: string)

text \<open>
  The two ways the script can stop: the explicit \<open>throw new Error\<close> of
  \<open>createTopLanguages\<close>, and a \<open>TypeError\<close> from reading the named property of
  \<open>undefined\<close>.
\<close>

datatype error = MultiScriptError | TypeError string

text \<open>The lines \<open>createTopLanguages\<close> writes with \<open>console.log\<close>.\<close>

datatype message =
    IgnoringUnsafe string string
  | IgnoringSpecial string string
  | IgnoringNeither string string int

text \<open>The fields of a package's \<open>package.json\<close> that the script reads.\<close>

record pack =
  pack_name :: string
  threshold :: "int option"
  includedlanguages :: "string list option"

section \<open>Sorting\<close>

text \<open>
  Modelled from the spec: \<open>alpha.asc\<close> of the package \<open>alpha-sort\<close>, which is not part
  of the sources; it orders names ascending.
\<close>

definition alpha_asc :: "string \<Rightarrow> string \<Rightarrow> int" where
  "alpha_asc a b = (if a = b then 0 else if a < b then - 1 else 1)"

text \<open>
  The comparator \<open>sort(a, b)\<close>. The difference of two speaker counts is \<open>NaN\<close> as soon
  as one of them is \<open>undefined\<close>, and \<open>NaN\<close> is neither positive nor negative; the last
  line tests the truthiness of \<open>b.speakers\<close>, which is false for \<open>undefined\<close> and for
  \<open>0\<close>.
\<close>

definition truthy :: "int option \<Rightarrow> bool" where
  "truthy v = (case v of None \<Rightarrow> False | Some n \<Rightarrow> n \<noteq> 0)"

definition sort_fn :: "info \<Rightarrow> info \<Rightarrow> int" where
  "sort_fn a b =
     (let diff = (case (speakers b, speakers a) of
                    (Some y, Some x) \<Rightarrow> Some (y - x)
                  | _ \<Rightarrow> None)
      in if (case diff of Some d \<Rightarrow> d > 0 \<or> d < 0 | None \<Rightarrow> False) then the diff
         else if speakers b = speakers a then alpha_asc (name a) (name b)
         else if truthy (speakers b) then 1 else - 1)"

text \<open>
  \<open>Array.prototype.sort\<close> belongs to the engine. The language standard makes its
  result a rearrangement of the array, and fixes the order of the result only for a
  consistent comparator, which \<open>sort\<close> is not: it answers \<open>-1\<close> both ways on an
  unknown and a zero speaker count. So the engine is a parameter of the model: any
  function that returns, for a comparator and a list, a permutation of the list.
\<close>

typedef 'a engine =
  "{srt :: ('a \<Rightarrow> 'a \<Rightarrow> int) \<Rightarrow> 'a list \<Rightarrow> 'a list.
      \<forall>comparefn xs. mset (srt comparefn xs) = mset xs}"
  by (rule exI[of _ "\<lambda>comparefn xs. xs"]) simp

setup_lifting type_definition_engine

definition Array_sort :: "'a engine \<Rightarrow> ('a \<Rightarrow> 'a \<Rightarrow> int) \<Rightarrow> 'a list \<Rightarrow> 'a list" where
  "Array_sort E comparefn xs = Rep_engine E comparefn xs"

text \<open>
  One engine, used in the small run below: the stable insertion sort in which each
  element in turn moves left past every element \<open>tmp\<close> of the sorted prefix with
  \<open>comparefn(tmp, element) > 0\<close>. The prefix is kept reversed.
\<close>

fun InsertionSort_insert :: "('a \<Rightarrow> 'a \<Rightarrow> int) \<Rightarrow> 'a \<Rightarrow> 'a list \<Rightarrow> 'a list" where
  "InsertionSort_insert comparefn element [] = [element]"
| "InsertionSort_insert comparefn element (tmp # earlier) =
     (if comparefn tmp element > 0 then tmp # InsertionSort_insert comparefn element earlier
      else element # tmp # earlier)"

lift_definition InsertionSort :: "'a engine" is
  "\<lambda>comparefn xs.
     rev (foldl (\<lambda>prefix element. InsertionSort_insert comparefn element prefix) [] xs)"
proof -
  fix comparefn :: "'a \<Rightarrow> 'a \<Rightarrow> int" and xs :: "'a list"
  have ins: "mset (InsertionSort_insert comparefn x ys) = add_mset x (mset ys)" for x ys
    by (induction ys) auto
  have "mset (foldl (\<lambda>prefix element. InsertionSort_insert comparefn element prefix) acc xs)
          = mset acc + mset xs" for acc
    by (induction xs arbitrary: acc) (auto simp: ins)
  then show "mset (rev (foldl (\<lambda>prefix element. InsertionSort_insert comparefn element prefix)
                          [] xs)) = mset xs"
    by simp
qed

text \<open>
  The data the script loads from other modules. Objects are association lists in
  insertion order (the order of \<open>Object.keys\<close> for keys that are not array indices);
  \<open>map_of\<close> reads a property and \<open>AList.update\<close> assigns one. \<open>usage\<close> stands
  for the part of \<open>scriptInformation\<close> that runs the regular expressions over the
  declaration text: the matched fraction of the text, rounded to hundredths, with
  \<open>None\<close> for \<open>NaN\<close> (an empty text). \<open>sort_engine\<close> is the
  \<open>Array.prototype.sort\<close> of the engine that runs the script.
\<close>

record env =
  iso6393_list :: "info list"
  speakers_table :: "string \<Rightarrow> int option"
  exclude :: "string list"
  overrides :: "(string \<times> string list) list"
  information :: "(string \<times> string \<times> string) list"
  script_names :: "string list"
  regex_source :: "string \<Rightarrow> string"
  usage :: "string option \<Rightarrow> string \<Rightarrow> nat option"
  trigrams :: "string \<Rightarrow> string list option"
  packages :: "pack list"
  sort_engine :: "info engine"

text \<open>A property name made from a value that may be \<open>undefined\<close>.\<close>

definition prop_key :: "string option \<Rightarrow> string" where
  "prop_key v = (case v of None \<Rightarrow> ''undefined'' | Some k \<Rightarrow> k)"

section \<open>The universe: \<open>createTopLanguages\<close>\<close>

definition createExpressions :: "env \<Rightarrow> (string \<times> RegExp) list" where
  "createExpressions e =
     foldl (\<lambda>res script. AList.update script (RegExp (regex_source e script) ''g'') res)
       [] (script_names e)"

text \<open>
  \<open>getUDHRKeysfromISO\<close>. With an override the function returns the override array
  itself, so the caller's \<open>pop\<close> shortens the table: the table is passed in.
\<close>

definition getUDHRKeysfromISO ::
  "env \<Rightarrow> (string \<times> string list) list \<Rightarrow> string \<Rightarrow> string list" where
  "getUDHRKeysfromISO e ov iso3 =
     (case map_of ov iso3 of
        Some arr \<Rightarrow> arr
      | None \<Rightarrow>
          (let udhrs = map fst (filter (\<lambda>(code, ISO, c). ISO = iso3 \<or> c = iso3) (information e))
           in if length udhrs = 1 then udhrs
              else if iso3 \<in> set udhrs then [iso3]
              else udhrs))"

text \<open>
  The first \<open>top.forEach\<close>: the last key becomes the record's own, every other key
  appends a copy of the record. \<open>forEach\<close> visits only the elements present when it
  starts, so the copies are collected apart and appended at the end.
\<close>

fun expand_udhr ::
  "env \<Rightarrow> (string \<times> string list) list \<Rightarrow> info list \<Rightarrow> info list \<times> info list" where
  "expand_udhr e ov [] = ([], [])"
| "expand_udhr e ov (i # rest) =
     (let udhrs = getUDHRKeysfromISO e ov (iso6393 i);
          i' = i\<lparr>udhr := (if udhrs = [] then None else Some (last udhrs))\<rparr>;
          ov' = (case map_of ov (iso6393 i) of
                   Some arr \<Rightarrow> AList.update (iso6393 i) (butlast arr) ov
                 | None \<Rightarrow> ov)
      in case expand_udhr e ov' rest of
           (visited, copies) \<Rightarrow>
             (i' # visited, map (\<lambda>u. i'\<lparr>udhr := Some u\<rparr>) (butlast udhrs) @ copies))"

text \<open>
  \<open>scriptInformation\<close>: the names of the scripts, other than Common and Inherited,
  whose rounded share of the declaration text is above 0.05.
\<close>

definition scriptInformation :: "env \<Rightarrow> string option \<Rightarrow> string list" where
  "scriptInformation e code =
     filter (\<lambda>script. \<not> (script = ''Common'' \<or> script = ''Inherited'') \<and>
                (case usage e code script of None \<Rightarrow> False | Some c \<Rightarrow> c > 5))
       (map fst (createExpressions e))"

definition assign_key :: "string \<Rightarrow> string list \<Rightarrow> string list" where
  "assign_key k ks = (if k \<in> set ks then ks else ks @ [k])"

text \<open>The second \<open>top.forEach\<close>: the qualifying scripts, with the manual overrides.\<close>

definition set_scripts :: "env \<Rightarrow> info \<Rightarrow> info" where
  "set_scripts e i =
     (let code = iso6393 i;
          s = scriptInformation e (udhr i);
          s' = (if code = ''tel'' then assign_key ''Telugu'' s
                else if code = ''ori'' then assign_key ''Oriya'' s
                else if code = ''sin'' then assign_key ''Sinhala'' s
                else if code = ''sat'' then assign_key ''Ol_Chiki'' s
                else if code = ''jpn'' then [''Hiragana, Katakana, and Han'']
                else s)
      in i\<lparr>scripts := s'\<rparr>)"

text \<open>The registry with speaker counts, without excluded and special codes.\<close>

definition with_speakers :: "env \<Rightarrow> info list" where
  "with_speakers e = map (\<lambda>i. i\<lparr>speakers := speakers_table e (iso6393 i)\<rparr>) (iso6393_list e)"

definition registry_filter :: "env \<Rightarrow> info \<Rightarrow> bool" where
  "registry_filter e i = (\<not> (iso6393 i \<in> set (exclude e)) \<and> \<not> (type i = ''special''))"

definition registry_log :: "env \<Rightarrow> info \<Rightarrow> message list" where
  "registry_log e i =
     (if iso6393 i \<in> set (exclude e) then [IgnoringUnsafe (iso6393 i) (name i)]
      else if type i = ''special'' then [IgnoringSpecial (iso6393 i) (name i)]
      else [])"

text \<open>The candidates: the list \<open>top\<close> as it enters the last \<open>filter\<close>.\<close>

definition candidates :: "env \<Rightarrow> info list" where
  "candidates e =
     (case expand_udhr e (overrides e) (filter (registry_filter e) (with_speakers e)) of
        (visited, copies) \<Rightarrow> map (set_scripts e) (visited @ copies))"

text \<open>
  The last \<open>filter\<close>, one candidate at a time, in order: the exception ends the run at
  the first candidate with more than one script; a candidate without trigrams and
  without script is left out, with a line on the console when its speaker count is
  above a million. The lines written before an exception stay written.
\<close>

definition ignore :: "env \<Rightarrow> info \<Rightarrow> bool" where
  "ignore e i = (trigrams e (prop_key (udhr i)) = None \<and> length (scripts i) = 0)"

definition ignore_log :: "env \<Rightarrow> info \<Rightarrow> message list" where
  "ignore_log e i =
     (if ignore e i \<and> truthy (speakers i) \<and> (case speakers i of Some n \<Rightarrow> n > 1000000 | None \<Rightarrow> False)
      then [IgnoringNeither (iso6393 i) (name i) (the (speakers i))]
      else [])"

definition first_script :: "info \<Rightarrow> info" where
  "first_script i = i\<lparr>script := (case scripts i of [] \<Rightarrow> None | s # _ \<Rightarrow> Some s)\<rparr>"

fun filter_candidates :: "env \<Rightarrow> info list \<Rightarrow> message list \<times> (error + info list)" where
  "filter_candidates e [] = ([], Inr [])"
| "filter_candidates e (i # rest) =
     (if length (scripts i) > 1 then ([], Inl MultiScriptError)
      else case filter_candidates e rest of
             (log, r) \<Rightarrow>
               (ignore_log e i @ log,
                case r of
                  Inl err \<Rightarrow> Inl err
                | Inr kept \<Rightarrow> Inr (if ignore e i then kept else first_script i # kept)))"

definition createTopLanguages :: "env \<Rightarrow> message list \<times> (error + info list)" where
  "createTopLanguages e =
     (case filter_candidates e (candidates e) of
        (log, r) \<Rightarrow>
          (concat (map (registry_log e) (with_speakers e)) @ log,
           case r of Inl err \<Rightarrow> Inl err | Inr kept \<Rightarrow> Inr (Array_sort (sort_engine e) sort_fn kept)))"

section \<open>One package: \<open>generate\<close>\<close>

text \<open>
  The two filters on the universe, in the order \<open>generate\<close> applies them. A
  comparison of \<open>undefined\<close> with a number is false.
\<close>

definition threshold_filter :: "int \<Rightarrow> info list \<Rightarrow> info list" where
  "threshold_filter t list =
     (if t \<noteq> - 1
      then filter (\<lambda>i. case speakers i of None \<Rightarrow> False | Some n \<Rightarrow> n \<ge> t) list
      else list)"

definition included_filter :: "string list \<Rightarrow> info list \<Rightarrow> info list" where
  "included_filter inc list =
     (if length inc > 0 then filter (\<lambda>i. iso6393 i \<in> set inc) list else list)"

definition package_list :: "int \<Rightarrow> pack \<Rightarrow> info list \<Rightarrow> info list" where
  "package_list t p topLanguages =
     included_filter (case includedlanguages p of None \<Rightarrow> [] | Some inc \<Rightarrow> inc)
       (threshold_filter t topLanguages)"

definition createTopLanguagesByScript :: "info list \<Rightarrow> (string \<times> info list) list" where
  "createTopLanguagesByScript top' =
     foldl (\<lambda>byScript i.
              AList.update (prop_key (script i))
                ((case map_of byScript (prop_key (script i)) of None \<Rightarrow> [] | Some l \<Rightarrow> l) @ [i])
                byScript)
       [] top'"

text \<open>
  The loop over the script groups. Its state is \<open>support\<close>, \<open>regularExpressions\<close>
  (whose values may be \<open>undefined\<close>) and \<open>perScript\<close>. With no language left in a
  group, \<open>languages[0]\<close> is \<open>undefined\<close> and reading its \<open>iso6393\<close> throws.
\<close>

definition group_languages :: "info list \<Rightarrow> info list" where
  "group_languages members = filter (\<lambda>i. \<not> (iso6393 i \<in> set [''npi'', ''yue''])) members"

type_synonym group_state =
  "info list \<times> (string \<times> RegExp option) list \<times> (string \<times> info list) list"

definition group_step ::
  "(string \<times> RegExp) list \<Rightarrow> group_state \<Rightarrow> string \<times> info list \<Rightarrow> error + group_state" where
  "group_step expressions st g =
     (case st of (support, regularExpressions, perScript) \<Rightarrow>
      case g of (scriptName, members) \<Rightarrow>
        (let languages = group_languages members
         in if length languages > 1
            then Inr (support,
                      (case map_of regularExpressions scriptName of
                         Some (Some r) \<Rightarrow> regularExpressions
                       | _ \<Rightarrow> AList.update scriptName (map_of expressions scriptName) regularExpressions),
                      AList.update scriptName languages perScript)
            else (case languages of
                    [] \<Rightarrow> Inl (TypeError ''iso6393'')
                  | l # _ \<Rightarrow>
                      Inr (support @ [l],
                           AList.update (iso6393 l) (map_of expressions scriptName) regularExpressions,
                           perScript))))"

fun forEach_group ::
  "(string \<times> RegExp) list \<Rightarrow> group_state \<Rightarrow> (string \<times> info list) list \<Rightarrow> error + group_state" where
  "forEach_group expressions st [] = Inr st"
| "forEach_group expressions st (g # gs) =
     (case group_step expressions st g of
        Inl err \<Rightarrow> Inl err
      | Inr st' \<Rightarrow> forEach_group expressions st' gs)"

text \<open>
  The trigram source is one object shared by all packages, and \<open>reverse\<close> reverses an
  array in place. The model keeps the source as a store and tells an array that lives
  in the store from a fresh one: \<open>concat()\<close> makes a fresh copy, \<open>reverse\<close> of a stored
  array writes the store, \<open>reverse\<close> of a fresh array does not.
\<close>

type_synonym store = "string \<Rightarrow> string list option"

datatype array_ref = Stored string | Fresh "string list"

definition Array_elements :: "store \<Rightarrow> array_ref \<Rightarrow> string list" where
  "Array_elements tri r =
     (case r of
        Stored k \<Rightarrow> (case tri k of None \<Rightarrow> [] | Some xs \<Rightarrow> xs)
      | Fresh xs \<Rightarrow> xs)"

definition Array_concat :: "store \<Rightarrow> array_ref \<Rightarrow> array_ref" where
  "Array_concat tri r = Fresh (Array_elements tri r)"

definition Array_reverse :: "store \<Rightarrow> array_ref \<Rightarrow> store \<times> array_ref" where
  "Array_reverse tri r =
     (case r of
        Stored k \<Rightarrow> (tri(k \<mapsto> rev (Array_elements tri r)), Stored k)
      | Fresh xs \<Rightarrow> (tri, Fresh (rev xs)))"

fun join :: "string \<Rightarrow> string list \<Rightarrow> string" where
  "join sep [] = []"
| "join sep [x] = x"
| "join sep (x # y # ys) = x @ sep @ join sep (y # ys)"

definition Array_join :: "string \<Rightarrow> store \<Rightarrow> array_ref \<Rightarrow> string" where
  "Array_join sep tri r = join sep (Array_elements tri r)"

text \<open>
  The loop over \<open>perScript\<close> and, inside, over the members of one group. The state is
  the trigram store, \<open>support\<close> and the object being filled (\<open>scriptObject\<close>, then
  \<open>data\<close>). The console lines of \<open>generate\<close> are not part of the model.
\<close>

type_synonym member_state = "store \<times> info list \<times> (string \<times> string) list"

definition member_step :: "member_state \<Rightarrow> info \<Rightarrow> member_state" where
  "member_step st i =
     (case st of (tri, support, scriptObject) \<Rightarrow>
        (case tri (prop_key (udhr i)) of
           Some t \<Rightarrow>
             (case Array_reverse tri (Array_concat tri (Stored (prop_key (udhr i)))) of
                (tri', r) \<Rightarrow>
                  (tri', support @ [i],
                   AList.update (iso6393 i) (Array_join ''|'' tri' r) scriptObject))
         | None \<Rightarrow> (tri, support, scriptObject)))"

type_synonym script_state =
  "store \<times> info list \<times> (string \<times> (string \<times> string) list) list"

fun forEach_script :: "script_state \<Rightarrow> (string \<times> info list) list \<Rightarrow> script_state" where
  "forEach_script st [] = st"
| "forEach_script st ((scriptName, members) # rest) =
     (case st of (tri, support, data) \<Rightarrow>
        (case foldl member_step (tri, support, []) members of
           (tri', support', scriptObject) \<Rightarrow>
             forEach_script (tri', support', AList.update scriptName scriptObject data) rest))"

text \<open>The Japanese entry, added after the loops.\<close>

definition push_japanese ::
  "(string \<times> RegExp) list \<Rightarrow> (string \<times> RegExp option) list \<Rightarrow>
   error + (string \<times> RegExp option) list" where
  "push_japanese expressions regularExpressions =
     (case map_of expressions ''Hiragana'' of
        None \<Rightarrow> Inl (TypeError ''source'')
      | Some h \<Rightarrow>
          (case map_of expressions ''Katakana'' of
             None \<Rightarrow> Inl (TypeError ''source'')
           | Some k \<Rightarrow>
               Inr (AList.update ''jpn'' (Some (RegExp (source h @ ''|'' @ source k) ''g''))
                      regularExpressions)))"

text \<open>
  What \<open>generate\<close> hands to the writers of \<open>expressions.js\<close>, \<open>data.json\<close> and
  \<open>readme.md\<close>. The rendering of the three files and the fixtures of the umbrella
  package are left out.
\<close>

record artifacts =
  regularExpressions :: "(string \<times> RegExp option) list"
  data :: "(string \<times> (string \<times> string) list) list"
  support :: "info list"

datatype outcome = Skipped | Crashed error | Built artifacts

definition generate :: "env \<Rightarrow> info list \<Rightarrow> store \<Rightarrow> pack \<Rightarrow> outcome \<times> store" where
  "generate e topLanguages tri p =
     (case threshold p of
        None \<Rightarrow> (Skipped, tri)
      | Some t \<Rightarrow>
          if t = 0 then (Skipped, tri)
          else
            (case forEach_group (createExpressions e) ([], [], [])
                    (createTopLanguagesByScript (package_list t p topLanguages)) of
               Inl err \<Rightarrow> (Crashed err, tri)
             | Inr (support1, regs, perScript) \<Rightarrow>
                 (case forEach_script (tri, support1, []) perScript of
                    (tri', support2, d) \<Rightarrow>
                      (case push_japanese (createExpressions e) regs of
                         Inl err \<Rightarrow> (Crashed err, tri')
                       | Inr regs' \<Rightarrow>
                           (Built \<lparr>regularExpressions = regs', data = d,
                                   support = Array_sort (sort_engine e) sort_fn support2\<rparr>, tri')))))"

section \<open>The whole run\<close>

text \<open>
  \<open>forEach(generate)\<close> over the packages: an exception in one package ends the run, and
  the packages before it have been written.
\<close>

fun forEach_generate ::
  "env \<Rightarrow> info list \<Rightarrow> store \<Rightarrow> pack list \<Rightarrow> store \<times> error option \<times> (string \<times> artifacts) list" where
  "forEach_generate e topLanguages tri [] = (tri, None, [])"
| "forEach_generate e topLanguages tri (p # ps) =
     (case generate e topLanguages tri p of
        (Crashed err, tri') \<Rightarrow> (tri', Some err, [])
      | (Skipped, tri') \<Rightarrow> forEach_generate e topLanguages tri' ps
      | (Built a, tri') \<Rightarrow>
          (case forEach_generate e topLanguages tri' ps of
             (tri'', err, written) \<Rightarrow> (tri'', err, (pack_name p, a) # written)))"

text \<open>
  The script from top to bottom: the universe is built first, and an exception there
  ends the run before \<open>generate\<close> is called for any package.
\<close>

definition build :: "env \<Rightarrow> message list \<times> error option \<times> (string \<times> artifacts) list" where
  "build e =
     (case createTopLanguages e of
        (log, Inl err) \<Rightarrow> (log, Some err, [])
      | (log, Inr topLanguages) \<Rightarrow>
          (case forEach_generate e topLanguages (trigrams e) (packages e) of
             (tri, err, written) \<Rightarrow> (log, err, written)))"

section \<open>Reading the artifacts\<close>

text \<open>
  The two detection mechanisms of a language code, read off the artifacts: the code is
  a key of \<open>regularExpressions\<close>, or it is a key of the object stored in \<open>data\<close>
  under some script.
\<close>

definition own_pattern :: "artifacts \<Rightarrow> string \<Rightarrow> bool" where
  "own_pattern a c = (c \<in> set (map fst (regularExpressions a)))"

definition trigram_scripts :: "artifacts \<Rightarrow> string \<Rightarrow> string list" where
  "trigram_scripts a c = map fst (filter (\<lambda>(s, obj). c \<in> set (map fst obj)) (data a))"

section \<open>A small run\<close>

text \<open>
  A registry of eleven codes, run on the insertion sort. Portuguese has two
  declarations through the override table, Serbian two through the declaration index
  (one Latin, one Cyrillic), Oriya gets its script from the manual override, Awadhi
  has neither declaration nor trigrams, and Scots has no speaker count. Every known
  count is positive, so the comparator is consistent on this universe.
\<close>

definition language :: "string \<Rightarrow> string \<Rightarrow> string \<Rightarrow> info" where
  "language c n t =
     \<lparr>iso6393 = c, name = n, type = t, speakers = None, udhr = None, scripts = [],
      script = None\<rparr>"

definition resolved ::
  "string \<Rightarrow> string \<Rightarrow> int option \<Rightarrow> string option \<Rightarrow> string \<Rightarrow> info" where
  "resolved c n s u w =
     \<lparr>iso6393 = c, name = n, type = ''living'', speakers = s, udhr = u, scripts = [w],
      script = Some w\<rparr>"

definition example_env :: env where
  "example_env =
     \<lparr>iso6393_list =
        [language ''eng'' ''English'' ''living'',
         language ''por'' ''Portuguese'' ''living'',
         language ''srp'' ''Serbian'' ''living'',
         language ''rus'' ''Russian'' ''living'',
         language ''ori'' ''Oriya'' ''living'',
         language ''cmn'' ''Mandarin Chinese'' ''living'',
         language ''yue'' ''Yue Chinese'' ''living'',
         language ''awa'' ''Awadhi'' ''living'',
         language ''sco'' ''Scots'' ''living'',
         language ''zxx'' ''No linguistic content'' ''special'',
         language ''prs'' ''Dari'' ''living''],
      speakers_table =
        map_of [(''eng'', 335000000), (''cmn'', 848000000), (''por'', 200000000),
                (''srp'', 9000000), (''rus'', 166000000), (''ori'', 31000000),
                (''yue'', 62000000), (''awa'', 38000000), (''prs'', 7600000)],
      exclude = [''prs''],
      overrides = [(''por'', [''por_BR'', ''por_PT''])],
      information =
        [(''eng'', ''eng'', ''eng''), (''srp_cyrl'', ''srp'', ''srp_cyrl''),
         (''srp_latn'', ''srp'', ''srp_latn''), (''rus'', ''rus'', ''rus''),
         (''yue'', ''yue'', ''yue''), (''cmn_hans'', ''cmn'', ''cmn_hans''),
         (''sco'', ''sco'', ''sco'')],
      script_names =
        [''Common'', ''Cyrillic'', ''Han'', ''Hiragana'', ''Katakana'', ''Latin'', ''Oriya''],
      regex_source = (\<lambda>s. ''[:'' @ s @ '':]''),
      usage =
        (\<lambda>code s. map_of
           [((''eng'', ''Latin''), 82), ((''eng'', ''Common''), 18),
            ((''por_BR'', ''Latin''), 83), ((''por_PT'', ''Latin''), 83),
            ((''srp_cyrl'', ''Cyrillic''), 81), ((''srp_latn'', ''Latin''), 81),
            ((''rus'', ''Cyrillic''), 84), ((''rus'', ''Latin''), 1),
            ((''yue'', ''Han''), 90), ((''cmn_hans'', ''Han''), 91),
            ((''sco'', ''Latin''), 80)] (prop_key code, s)),
      trigrams =
        map_of [(''eng'', [''the'', ''and'', ''ing'']), (''por_BR'', [''de '', ''os '', ''ito'']),
                (''por_PT'', [''de '', ''ito'', ''os '']), (''srp_cyrl'', [''na '', ''pra'']),
                (''srp_latn'', [''na '', ''je '']), (''rus'', [''so '', ''pra'']),
                (''sco'', [''the'', ''an ''])],
      packages =
        [\<lparr>pack_name = ''franc'', threshold = Some 1000000, includedlanguages = None\<rparr>,
         \<lparr>pack_name = ''franc-draft'', threshold = None, includedlanguages = None\<rparr>,
         \<lparr>pack_name = ''franc-min'', threshold = Some 10000000,
            includedlanguages = Some [''eng'', ''srp'']\<rparr>,
         \<lparr>pack_name = ''franc-all'', threshold = Some (- 1), includedlanguages = None\<rparr>,
         \<lparr>pack_name = ''franc-yue'', threshold = Some (- 1),
            includedlanguages = Some [''yue'']\<rparr>],
      sort_engine = InsertionSort\<rparr>"

text \<open>The universe of the small run, as \<open>createTopLanguages\<close> returns it.\<close>

definition example_top :: "info list" where
  "example_top =
     [resolved ''cmn'' ''Mandarin Chinese'' (Some 848000000) (Some ''cmn_hans'') ''Han'',
      resolved ''eng'' ''English'' (Some 335000000) (Some ''eng'') ''Latin'',
      resolved ''por'' ''Portuguese'' (Some 200000000) (Some ''por_PT'') ''Latin'',
      resolved ''por'' ''Portuguese'' (Some 200000000) (Some ''por_BR'') ''Latin'',
      resolved ''rus'' ''Russian'' (Some 166000000) (Some ''rus'') ''Cyrillic'',
      resolved ''yue'' ''Yue Chinese'' (Some 62000000) (Some ''yue'') ''Han'',
      resolved ''ori'' ''Oriya'' (Some 31000000) None ''Oriya'',
      resolved ''srp'' ''Serbian'' (Some 9000000) (Some ''srp_latn'') ''Latin'',
      resolved ''srp'' ''Serbian'' (Some 9000000) (Some ''srp_cyrl'') ''Cyrillic'',
      resolved ''sco'' ''Scots'' None (Some ''sco'') ''Latin'']"

text \<open>
  Two records the sort can meet: Scots as above, without speaker count, and a language
  whose entry in the speaker table is zero.
\<close>

definition example_unknown :: info where
  "example_unknown = resolved ''sco'' ''Scots'' None (Some ''sco'') ''Latin''"

definition example_zero :: info where
  "example_zero = resolved ''ang'' ''Old English'' (Some 0) (Some ''ang'') ''Latin''"

text \<open>What \<open>generate\<close> builds for the first package of the small run.\<close>

definition example_franc :: artifacts where
  "example_franc =
     \<lparr>regularExpressions =
        [(''cmn'', Some (RegExp ''[:Han:]'' ''g'')),
         (''Latin'', Some (RegExp ''[:Latin:]'' ''g'')),
         (''Cyrillic'', Some (RegExp ''[:Cyrillic:]'' ''g'')),
         (''ori'', Some (RegExp ''[:Oriya:]'' ''g'')),
         (''jpn'', Some (RegExp ''[:Hiragana:]|[:Katakana:]'' ''g''))],
      data =
        [(''Latin'', [(''eng'', ''ing|and|the''), (''por'', ''ito|os |de ''),
                      (''srp'', ''je |na '')]),
         (''Cyrillic'', [(''rus'', ''pra|so ''), (''srp'', ''pra|na '')])],
      support =
        [example_top ! 0, example_top ! 1, example_top ! 2, example_top ! 3,
         example_top ! 4, example_top ! 6, example_top ! 7, example_top ! 8]\<rparr>"

text \<open>The same run with a Russian declaration that is 12% Latin.\<close>

definition example_env_multi :: env where
  "example_env_multi =
     example_env\<lparr>usage := (\<lambda>code s. if code = Some ''rus'' \<and> s = ''Latin'' then Some 12
                                  else usage example_env code s)\<rparr>"

text \<open>
  A universe of two Japanese declarations with their trigram lists, and what
  \<open>generate\<close> builds from it for the package without threshold.
\<close>

definition example_japanese_top :: "info list" where
  "example_japanese_top =
     [resolved ''jpn'' ''Japanese'' (Some 128000000) (Some ''jpn_osaka'')
        ''Hiragana, Katakana, and Han'',
      resolved ''jpn'' ''Japanese'' (Some 128000000) (Some ''jpn_tokyo'')
        ''Hiragana, Katakana, and Han'']"

definition example_japanese_trigrams :: store where
  "example_japanese_trigrams =
     map_of [(''jpn_osaka'', [''no '', ''ya '']), (''jpn_tokyo'', [''no '', ''ni ''])]"

definition example_japanese :: artifacts where
  "example_japanese =
     \<lparr>regularExpressions =
        [(''Hiragana, Katakana, and Han'', None),
         (''jpn'', Some (RegExp ''[:Hiragana:]|[:Katakana:]'' ''g''))],
      data = [(''Hiragana, Katakana, and Han'', [(''jpn'', ''ni |no '')])],
      support = example_japanese_top\<rparr>"

section \<open>Closed forms used in the proofs\<close>

text \<open>
  The members of a group that have trigram data, and the write of one member's
  pattern into the object of its script.
\<close>

definition with_trigrams :: "store \<Rightarrow> info list \<Rightarrow> info list" where
  "with_trigrams tri ms = filter (\<lambda>i. tri (prop_key (udhr i)) \<noteq> None) ms"

definition write_pattern :: "store \<Rightarrow> (string \<times> string) list \<Rightarrow> info \<Rightarrow> (string \<times> string) list" where
  "write_pattern tri obj i =
     AList.update (iso6393 i) (join ''|'' (rev (Array_elements tri (Stored (prop_key (udhr i)))))) obj"

text \<open>
  What holds of the state of the loop over the script groups, with the groups still to
  come: their keys are distinct and not yet in \<open>perScript\<close>, every member of a group
  has the group's script, a language pushed by the singleton branch has its code in
  \<open>regularExpressions\<close> and its script neither in \<open>perScript\<close> nor among the groups
  to come.
\<close>

definition group_inv :: "(string \<times> info list) list \<Rightarrow> group_state \<Rightarrow> bool" where
  "group_inv gs st =
     (case st of (sp, regs, per) \<Rightarrow>
        distinct (map fst gs)
        \<and> (\<forall>(s, ms) \<in> set gs. \<forall>m \<in> set ms. prop_key (script m) = s)
        \<and> fst ` set per \<inter> fst ` set gs = {}
        \<and> distinct (map fst per)
        \<and> (\<forall>(s, l) \<in> set per. \<forall>m \<in> set l. prop_key (script m) = s)
        \<and> (\<forall>i \<in> set sp. prop_key (script i) \<notin> fst ` set gs
                           \<and> prop_key (script i) \<notin> fst ` set per
                           \<and> iso6393 i \<in> fst ` set regs))"

section \<open>Auxiliary facts\<close>

lemma set_Array_sort: "set (Array_sort E c xs) = set xs"
proof -
  from Rep_engine[of E] have "mset (Rep_engine E c xs) = mset xs" by simp
  then show ?thesis unfolding Array_sort_def by (rule mset_eq_setD)
qed

lemma update_member:
  "(k, v) \<in> set (AList.update k' v' al) \<Longrightarrow> (k = k' \<and> v = v') \<or> (k, v) \<in> set al"
  by (induction al) (auto split: if_splits)

lemma byScript_step_inv:
  assumes "distinct (map fst acc)"
    and "\<forall>(s, ms) \<in> set acc. \<forall>m \<in> set ms. prop_key (script m) = s"
  shows "distinct (map fst (foldl (\<lambda>byScript i.
              AList.update (prop_key (script i))
                ((case map_of byScript (prop_key (script i)) of None \<Rightarrow> [] | Some l \<Rightarrow> l) @ [i])
                byScript) acc xs))
       \<and> (\<forall>(s, ms) \<in> set (foldl (\<lambda>byScript i.
              AList.update (prop_key (script i))
                ((case map_of byScript (prop_key (script i)) of None \<Rightarrow> [] | Some l \<Rightarrow> l) @ [i])
                byScript) acc xs). \<forall>m \<in> set ms. prop_key (script m) = s)"
  using assms
proof (induction xs arbitrary: acc)
  case Nil
  then show ?case by simp
next
  case (Cons x xs)
  let ?k = "prop_key (script x)"
  let ?acc = "AList.update ?k ((case map_of acc ?k of None \<Rightarrow> [] | Some l \<Rightarrow> l) @ [x]) acc"
  have d: "distinct (map fst ?acc)" using Cons.prems(1) by (rule distinct_update)
  have m: "\<forall>(s, ms) \<in> set ?acc. \<forall>m \<in> set ms. prop_key (script m) = s"
  proof (clarify)
    fix s ms m assume a: "(s, ms) \<in> set ?acc" and b: "m \<in> set ms"
    from update_member[OF a] show "prop_key (script m) = s"
    proof
      assume "s = ?k \<and> ms = (case map_of acc ?k of None \<Rightarrow> [] | Some l \<Rightarrow> l) @ [x]"
      with b Cons.prems(2) show ?thesis
        by (auto split: option.splits dest!: map_of_SomeD)
    next
      assume "(s, ms) \<in> set acc"
      with b Cons.prems(2) show ?thesis by auto
    qed
  qed
  from Cons.IH[OF d m] show ?case by simp
qed

lemma byScript_distinct: "distinct (map fst (createTopLanguagesByScript xs))"
  using byScript_step_inv[of "[]" xs] by (simp add: createTopLanguagesByScript_def)

lemma byScript_script:
  "(s, ms) \<in> set (createTopLanguagesByScript xs) \<Longrightarrow> m \<in> set ms \<Longrightarrow> prop_key (script m) = s"
  using byScript_step_inv[of "[]" xs] by (auto simp: createTopLanguagesByScript_def)

lemma member_step_pure:
  "member_step (tri, sp, obj) i =
     (case tri (prop_key (udhr i)) of
        Some t \<Rightarrow> (tri, sp @ [i], AList.update (iso6393 i) (join ''|'' (rev t)) obj)
      | None \<Rightarrow> (tri, sp, obj))"
  by (simp add: member_step_def Array_reverse_def Array_concat_def Array_join_def
      Array_elements_def split: option.splits)

section \<open>The claims\<close>

lemma example_universe: "snd (createTopLanguages example_env) = Inr example_top"
  by code_simp

lemma included_filter_subset: "set (included_filter inc xs) \<subseteq> set xs"
  by (auto simp: included_filter_def)

text \<open>
  C4. With a threshold other than \<open>-1\<close>, every language the package filter retains
  has a known speaker count of at least the threshold, and a language with unknown
  speaker count never passes; with threshold \<open>-1\<close> the threshold filter removes
  nothing from the universe.
\<close>

theorem threshold_law:
  "(t \<noteq> - 1 \<longrightarrow> (\<forall>i \<in> set (package_list t p topLanguages). \<exists>n. speakers i = Some n \<and> t \<le> n))
   \<and> (t \<noteq> - 1 \<longrightarrow> (\<forall>i \<in> set topLanguages. speakers i = None \<longrightarrow>
                         i \<notin> set (threshold_filter t topLanguages)))
   \<and> threshold_filter (- 1) topLanguages = topLanguages"
proof (intro conjI impI ballI)
  fix i assume t: "t \<noteq> - 1" and i: "i \<in> set (package_list t p topLanguages)"
  from i have "i \<in> set (threshold_filter t topLanguages)"
    using included_filter_subset by (auto simp: package_list_def)
  with t show "\<exists>n. speakers i = Some n \<and> t \<le> n"
    by (auto simp: threshold_filter_def split: option.splits)
next
  fix i assume "t \<noteq> - 1" "i \<in> set topLanguages" "speakers i = None"
  then show "i \<notin> set (threshold_filter t topLanguages)"
    by (simp add: threshold_filter_def)
next
  show "threshold_filter (- 1) topLanguages = topLanguages"
    by (simp add: threshold_filter_def)
qed

theorem threshold_law_witness:
  "(1000000::int) \<noteq> - 1
   \<and> example_top ! 7 \<in> set (package_list 1000000 (packages example_env ! 0) example_top)
   \<and> speakers (example_top ! 7) = Some 9000000 \<and> (1000000::int) \<le> 9000000
   \<and> example_top ! 9 \<in> set example_top \<and> speakers (example_top ! 9) = None
   \<and> example_top ! 9 \<notin> set (threshold_filter 1000000 example_top)
   \<and> threshold_filter (- 1) example_top = example_top"
proof -
  have h: "(1000000::int) \<noteq> - 1" by simp
  have m: "example_top ! 7 \<in> set (package_list 1000000 (packages example_env ! 0) example_top)"
    by code_simp
  have s: "speakers (example_top ! 7) = Some 9000000" by code_simp
  have u: "example_top ! 9 \<in> set example_top" by code_simp
  have n: "speakers (example_top ! 9) = None" by code_simp
  from threshold_law[of 1000000 "packages example_env ! 0" example_top] h m s u n
  show ?thesis by auto
qed

text \<open>
  C2, amended. With a non-empty allow-list, the resolved list holds exactly the
  universe languages whose code is listed and that pass the threshold filter (a known
  speaker count of at least the threshold, unless the threshold is \<open>-1\<close>): the
  allow-list narrows the threshold's selection.
\<close>

theorem allow_list_narrows:
  assumes "includedlanguages p = Some inc" and "inc \<noteq> []"
  shows "package_list t p topLanguages =
           filter (\<lambda>i. iso6393 i \<in> set inc \<and>
                        (t = - 1 \<or> (\<exists>n. speakers i = Some n \<and> t \<le> n))) topLanguages"
proof -
  have "(case speakers i of None \<Rightarrow> False | Some n \<Rightarrow> t \<le> n) = (\<exists>n. speakers i = Some n \<and> t \<le> n)"
    for i :: info
    by (cases "speakers i") auto
  then show ?thesis using assms
    by (auto simp: package_list_def included_filter_def threshold_filter_def intro!: filter_cong)
qed

theorem allow_list_narrows_witness:
  "includedlanguages (packages example_env ! 2) = Some [''eng'', ''srp'']
   \<and> [''eng'', ''srp''] \<noteq> []
   \<and> package_list 10000000 (packages example_env ! 2) example_top = [example_top ! 1]"
proof -
  have h1: "includedlanguages (packages example_env ! 2) = Some [''eng'', ''srp'']"
    by code_simp
  have h2: "[''eng'', ''srp''] \<noteq> []" by simp
  have r: "filter (\<lambda>i. iso6393 i \<in> set [''eng'', ''srp''] \<and>
                        ((10000000::int) = - 1 \<or> (\<exists>n. speakers i = Some n \<and> 10000000 \<le> n)))
             example_top = [example_top ! 1]"
    by (simp add: example_top_def resolved_def)
  from allow_list_narrows[OF h1 h2, of 10000000 example_top] r h1 h2
  show ?thesis by simp
qed

text \<open>
  C2 as stated fails: the package \<open>franc-min\<close> lists Serbian, which is in the universe
  with nine million speakers, below the package's threshold of ten million, and the
  resolved list does not hold it.
\<close>

theorem allow_list_counterexample:
  "includedlanguages (packages example_env ! 2) = Some [''eng'', ''srp'']
   \<and> threshold (packages example_env ! 2) = Some 10000000
   \<and> example_top ! 7 \<in> set example_top
   \<and> iso6393 (example_top ! 7) \<in> set [''eng'', ''srp'']
   \<and> example_top ! 7 \<notin> set (package_list 10000000 (packages example_env ! 2) example_top)"
  by code_simp

text \<open>
  C3. The comparator answers \<open>-1\<close>, first argument first, for a language with unknown
  speaker count against a language with zero speakers, in whichever order the two are
  passed: it puts the unknown count before the zero count, and it contradicts itself.
  So every engine that settles an array of two elements from the comparator's two
  answers returns the unknown count in front for one of the two input orders.
\<close>

theorem sort_unknown_before_zero:
  assumes "speakers a = None" and "speakers b = Some 0"
  shows "sort_fn a b = - 1 \<and> sort_fn b a = - 1
         \<and> ((\<forall>x y. Array_sort E sort_fn [x, y] =
                     (if decide (sort_fn x y) (sort_fn y x) then [x, y] else [y, x]))
              \<longrightarrow> Array_sort E sort_fn [a, b] = [a, b] \<or> Array_sort E sort_fn [b, a] = [a, b])"
proof -
  from assms have ab: "sort_fn a b = - 1" and ba: "sort_fn b a = - 1"
    by (simp_all add: sort_fn_def truthy_def)
  have "Array_sort E sort_fn [a, b] = [a, b] \<or> Array_sort E sort_fn [b, a] = [a, b]"
    if h: "\<forall>x y. Array_sort E sort_fn [x, y] =
                 (if decide (sort_fn x y) (sort_fn y x) then [x, y] else [y, x])"
  proof (cases "decide (- 1) (- 1)")
    case True
    with h ab ba show ?thesis by simp
  next
    case False
    with h ab ba show ?thesis by simp
  qed
  with ab ba show ?thesis by blast
qed

theorem sort_unknown_before_zero_witness:
  "speakers example_unknown = None \<and> speakers example_zero = Some 0
   \<and> sort_fn example_unknown example_zero = - 1
   \<and> sort_fn example_zero example_unknown = - 1
   \<and> (Array_sort InsertionSort sort_fn [example_unknown, example_zero]
         = [example_unknown, example_zero]
       \<or> Array_sort InsertionSort sort_fn [example_zero, example_unknown]
         = [example_unknown, example_zero])"
proof -
  have h1: "speakers example_unknown = None"
    by (simp add: example_unknown_def resolved_def)
  have h2: "speakers example_zero = Some 0"
    by (simp add: example_zero_def resolved_def)
  have h3: "\<forall>x y. Array_sort InsertionSort sort_fn [x, y] =
              (if \<not> 0 < sort_fn x y then [x, y] else [y, x])"
    by (simp add: Array_sort_def InsertionSort.rep_eq)
  from sort_unknown_before_zero[OF h1 h2, of InsertionSort "\<lambda>u v. \<not> 0 < u"] h1 h2 h3
  show ?thesis by simp
qed

lemma filter_candidates_abort:
  "\<exists>i \<in> set cs. length (scripts i) > 1 \<Longrightarrow> snd (filter_candidates e cs) = Inl MultiScriptError"
proof (induction cs)
  case Nil
  then show ?case by simp
next
  case (Cons a cs)
  show ?case
  proof (cases "length (scripts a) > 1")
    case True
    then show ?thesis by simp
  next
    case False
    with Cons.prems have "\<exists>i \<in> set cs. length (scripts i) > 1" by auto
    from Cons.IH[OF this] False show ?thesis
      by (cases "filter_candidates e cs") auto
  qed
qed

lemma filter_candidates_ok:
  "\<forall>i \<in> set cs. length (scripts i) \<le> 1 \<Longrightarrow>
     filter_candidates e cs =
       (concat (map (ignore_log e) cs), Inr (map first_script (filter (\<lambda>i. \<not> ignore e i) cs)))"
  by (induction cs) (auto split: prod.splits sum.splits)

text \<open>
  C5. If a candidate of the universe build has more than one qualifying script,
  \<open>createTopLanguages\<close> ends with the error and the run ends there: no package is
  processed and no artifact is written.
\<close>

theorem multi_script_aborts:
  assumes "i \<in> set (candidates e)" and "length (scripts i) > 1"
  shows "snd (createTopLanguages e) = Inl MultiScriptError
         \<and> snd (build e) = (Some MultiScriptError, [])"
proof -
  from assms have "snd (filter_candidates e (candidates e)) = Inl MultiScriptError"
    by (intro filter_candidates_abort) blast
  then obtain log where "filter_candidates e (candidates e) = (log, Inl MultiScriptError)"
    by (cases "filter_candidates e (candidates e)") simp
  then have c: "snd (createTopLanguages e) = Inl MultiScriptError"
    by (simp add: createTopLanguages_def)
  then obtain log' where "createTopLanguages e = (log', Inl MultiScriptError)"
    by (cases "createTopLanguages e") simp
  then have "snd (build e) = (Some MultiScriptError, [])"
    by (simp add: build_def)
  with c show ?thesis by simp
qed

theorem multi_script_aborts_witness:
  "candidates example_env_multi ! 3 \<in> set (candidates example_env_multi)
   \<and> scripts (candidates example_env_multi ! 3) = [''Cyrillic'', ''Latin'']
   \<and> snd (createTopLanguages example_env_multi) = Inl MultiScriptError
   \<and> snd (build example_env_multi) = (Some MultiScriptError, [])"
proof -
  have m: "candidates example_env_multi ! 3 \<in> set (candidates example_env_multi)"
    by code_simp
  have s: "scripts (candidates example_env_multi ! 3) = [''Cyrillic'', ''Latin'']"
    by code_simp
  then have l: "length (scripts (candidates example_env_multi ! 3)) > 1" by simp
  from multi_script_aborts[OF m l] m s show ?thesis by simp
qed

lemma expand_udhr_fields:
  "expand_udhr e ov xs = (visited, copies) \<Longrightarrow> j \<in> set visited \<union> set copies \<Longrightarrow>
     \<exists>i \<in> set xs. \<exists>u. j = i\<lparr>udhr := u\<rparr>"
proof (induction xs arbitrary: ov visited copies)
  case Nil
  then show ?case by simp
next
  case (Cons x xs)
  then show ?case
    by (fastforce simp: Let_def split: prod.splits)
qed

lemma candidates_speakers:
  assumes "j \<in> set (candidates e)"
  shows "speakers j = speakers_table e (iso6393 j)"
proof -
  obtain visited copies where
    ex: "expand_udhr e (overrides e) (filter (registry_filter e) (with_speakers e)) = (visited, copies)"
    by (cases "expand_udhr e (overrides e) (filter (registry_filter e) (with_speakers e))")
  with assms obtain k where k: "k \<in> set visited \<union> set copies" and j: "j = set_scripts e k"
    by (auto simp: candidates_def)
  from expand_udhr_fields[OF ex k] obtain i u where
    i: "i \<in> set (with_speakers e)" and ki: "k = i\<lparr>udhr := u\<rparr>"
    by auto
  from i have "speakers i = speakers_table e (iso6393 i)"
    by (auto simp: with_speakers_def)
  with j ki show ?thesis
    by (simp add: set_scripts_def Let_def)
qed

lemma first_script_fields:
  "scripts (first_script i) = scripts i" "udhr (first_script i) = udhr i"
  by (simp_all add: first_script_def)

lemma ignore_first_script: "ignore e (first_script i) = ignore e i"
  by (simp add: ignore_def first_script_fields)

lemma registry_log_other: "IgnoringNeither c nm n \<notin> set (registry_log e i)"
  by (simp add: registry_log_def)

lemma ignore_log_member:
  "IgnoringNeither c nm n \<in> set (ignore_log e j) \<longleftrightarrow>
     ignore e j \<and> speakers j = Some n \<and> 1000000 < n \<and> c = iso6393 j \<and> nm = name j"
  by (auto simp: ignore_log_def truthy_def split: option.splits)

text \<open>
  C9. In a build that no candidate with several scripts aborts, a candidate with no
  qualifying script and no trigram data for its declaration key does not stop the
  build and is not in the universe (every language of the universe has a script or
  trigram data), and the console holds the line naming it, with its speaker count,
  exactly when that count is above one million.
\<close>

theorem rejected_candidate:
  assumes "\<forall>c \<in> set (candidates e). length (scripts c) \<le> 1"
    and "i \<in> set (candidates e)"
    and "scripts i = []"
    and "trigrams e (prop_key (udhr i)) = None"
  shows "\<exists>top'. snd (createTopLanguages e) = Inr top'
           \<and> first_script i \<notin> set top'
           \<and> (\<forall>j \<in> set top'. \<not> ignore e j)
           \<and> (\<forall>n. IgnoringNeither (iso6393 i) (name i) n \<in> set (fst (createTopLanguages e))
                    \<longleftrightarrow> speakers i = Some n \<and> 1000000 < n)"
proof -
  let ?cs = "candidates e"
  let ?kept = "map first_script (filter (\<lambda>i. \<not> ignore e i) ?cs)"
  have fc: "filter_candidates e ?cs = (concat (map (ignore_log e) ?cs), Inr ?kept)"
    using assms(1) by (rule filter_candidates_ok)
  have ig: "ignore e i" using assms(3,4) by (simp add: ignore_def)
  have top: "snd (createTopLanguages e) = Inr (Array_sort (sort_engine e) sort_fn ?kept)"
    by (simp add: createTopLanguages_def fc)
  have log: "fst (createTopLanguages e)
               = concat (map (registry_log e) (with_speakers e)) @ concat (map (ignore_log e) ?cs)"
    by (simp add: createTopLanguages_def fc)
  have out: "first_script i \<notin> set (Array_sort (sort_engine e) sort_fn ?kept)"
  proof
    assume "first_script i \<in> set (Array_sort (sort_engine e) sort_fn ?kept)"
    then obtain c where c: "c \<in> set ?cs" "\<not> ignore e c" "first_script c = first_script i"
      by (auto simp: set_Array_sort)
    from c(3) have "ignore e (first_script c) = ignore e (first_script i)" by simp
    with c(2) ig show False by (simp add: ignore_first_script)
  qed
  have kept: "\<forall>j \<in> set (Array_sort (sort_engine e) sort_fn ?kept). \<not> ignore e j"
    by (auto simp: set_Array_sort ignore_first_script)
  have warn: "IgnoringNeither (iso6393 i) (name i) n \<in> set (fst (createTopLanguages e))
                \<longleftrightarrow> speakers i = Some n \<and> 1000000 < n" for n
  proof
    assume "IgnoringNeither (iso6393 i) (name i) n \<in> set (fst (createTopLanguages e))"
    then obtain j where j: "j \<in> set ?cs" "speakers j = Some n" "1000000 < n"
        "iso6393 i = iso6393 j"
      by (auto simp: log registry_log_other ignore_log_member)
    from candidates_speakers[OF j(1)] candidates_speakers[OF assms(2)] j(2,4)
    have "speakers i = Some n" by simp
    with j(3) show "speakers i = Some n \<and> 1000000 < n" by simp
  next
    assume "speakers i = Some n \<and> 1000000 < n"
    with ig assms(2) show "IgnoringNeither (iso6393 i) (name i) n \<in> set (fst (createTopLanguages e))"
      by (auto simp: log ignore_log_member)
  qed
  from top out kept warn show ?thesis by blast
qed

lemma example_candidate_awa:
  "candidates example_env ! 7 = (language ''awa'' ''Awadhi'' ''living'')\<lparr>speakers := Some 38000000\<rparr>"
  by code_simp

theorem rejected_candidate_witness:
  "candidates example_env ! 7 \<in> set (candidates example_env)
   \<and> iso6393 (candidates example_env ! 7) = ''awa''
   \<and> name (candidates example_env ! 7) = ''Awadhi''
   \<and> speakers (candidates example_env ! 7) = Some 38000000
   \<and> scripts (candidates example_env ! 7) = []
   \<and> trigrams example_env (prop_key (udhr (candidates example_env ! 7))) = None
   \<and> snd (createTopLanguages example_env) = Inr example_top
   \<and> first_script (candidates example_env ! 7) \<notin> set example_top
   \<and> IgnoringNeither ''awa'' ''Awadhi'' 38000000 \<in> set (fst (createTopLanguages example_env))"
proof -
  let ?i = "candidates example_env ! 7"
  have h1: "\<forall>c \<in> set (candidates example_env). length (scripts c) \<le> 1" by code_simp
  have h2: "?i \<in> set (candidates example_env)" by code_simp
  have h3: "scripts ?i = []" by (simp add: example_candidate_awa language_def)
  have "trigrams example_env ''undefined'' = None" by code_simp
  then have h4: "trigrams example_env (prop_key (udhr ?i)) = None"
    by (simp add: example_candidate_awa language_def prop_key_def)
  have f: "iso6393 ?i = ''awa''" "name ?i = ''Awadhi''" "speakers ?i = Some 38000000"
    by (simp_all add: example_candidate_awa language_def)
  from rejected_candidate[OF h1 h2 h3 h4] obtain top' where
    t: "snd (createTopLanguages example_env) = Inr top'"
      "first_script ?i \<notin> set top'"
      "\<forall>n. IgnoringNeither (iso6393 ?i) (name ?i) n \<in> set (fst (createTopLanguages example_env))
             \<longleftrightarrow> speakers ?i = Some n \<and> 1000000 < n"
    by blast
  from t(1) example_universe have "top' = example_top" by simp
  with t f h2 h3 h4 show ?thesis by simp
qed

lemma group_step_error: "group_step ex st g = Inl err \<Longrightarrow> err = TypeError ''iso6393''"
  by (cases st; cases g)
     (auto simp: group_step_def Let_def split: if_splits list.splits)

lemma group_step_Inl_iff:
  "(\<exists>err. group_step ex st (s, ms) = Inl err) \<longleftrightarrow> group_languages ms = []"
  by (cases st) (auto simp: group_step_def Let_def split: list.splits)

lemma forEach_group_crash:
  "(s, ms) \<in> set gs \<Longrightarrow> group_languages ms = [] \<Longrightarrow>
     forEach_group ex st gs = Inl (TypeError ''iso6393'')"
proof (induction gs arbitrary: st)
  case Nil
  then show ?case by simp
next
  case (Cons g gs)
  show ?case
  proof (cases "group_step ex st g")
    case (Inl err)
    with group_step_error[OF Inl] show ?thesis by simp
  next
    case (Inr st')
    with group_step_Inl_iff[of ex st s ms] Cons.prems have "(s, ms) \<in> set gs" by auto
    from Cons.IH[OF this Cons.prems(2)] Inr show ?thesis by simp
  qed
qed

lemma forEach_group_ok:
  "\<forall>(s, ms) \<in> set gs. group_languages ms \<noteq> [] \<Longrightarrow> \<exists>st'. forEach_group ex st gs = Inr st'"
proof (induction gs arbitrary: st)
  case Nil
  show ?case by (rule exI[of _ st]) simp
next
  case (Cons g gs)
  obtain s ms where g: "g = (s, ms)" by (cases g)
  with Cons.prems have "group_languages ms \<noteq> []" by simp
  with group_step_Inl_iff[of ex st s ms] have ne: "\<nexists>err. group_step ex st g = Inl err"
    by (simp add: g)
  have "\<exists>st1. group_step ex st g = Inr st1"
  proof (cases "group_step ex st g")
    case (Inl err)
    with ne show ?thesis by blast
  next
    case (Inr st1)
    then show ?thesis by blast
  qed
  then obtain st1 where "group_step ex st g = Inr st1" ..
  moreover from Cons.prems have "\<forall>(s, ms) \<in> set gs. group_languages ms \<noteq> []" by simp
  from Cons.IH[OF this] obtain st' where "forEach_group ex st1 gs = Inr st'" by blast
  ultimately have "forEach_group ex st (g # gs) = Inr st'" by simp
  then show ?case ..
qed

text \<open>
  C10. The handling of one script group throws exactly when no language of the group
  is left after \<open>npi\<close> and \<open>yue\<close> are removed; and when a package has such a group,
  \<open>generate\<close> ends with that \<open>TypeError\<close> instead of artifacts, and the run ends
  there with nothing written for this package or for those after it.
\<close>

theorem empty_group_crashes:
  "((\<exists>err. group_step ex st (s, ms) = Inl err) \<longleftrightarrow> group_languages ms = [])
   \<and> (threshold p = Some t \<and> t \<noteq> 0
        \<and> (s, ms) \<in> set (createTopLanguagesByScript (package_list t p topLanguages))
        \<and> group_languages ms = []
      \<longrightarrow> fst (generate e topLanguages tri p) = Crashed (TypeError ''iso6393'')
          \<and> snd (forEach_generate e topLanguages tri (p # ps)) = (Some (TypeError ''iso6393''), []))"
proof (rule conjI)
  show "(\<exists>err. group_step ex st (s, ms) = Inl err) \<longleftrightarrow> group_languages ms = []"
    by (rule group_step_Inl_iff)
next
  show "threshold p = Some t \<and> t \<noteq> 0
        \<and> (s, ms) \<in> set (createTopLanguagesByScript (package_list t p topLanguages))
        \<and> group_languages ms = []
      \<longrightarrow> fst (generate e topLanguages tri p) = Crashed (TypeError ''iso6393'')
          \<and> snd (forEach_generate e topLanguages tri (p # ps)) = (Some (TypeError ''iso6393''), [])"
  proof (rule impI)
    assume a: "threshold p = Some t \<and> t \<noteq> 0
        \<and> (s, ms) \<in> set (createTopLanguagesByScript (package_list t p topLanguages))
        \<and> group_languages ms = []"
    then have "forEach_group (createExpressions e) ([], [], [])
               (createTopLanguagesByScript (package_list t p topLanguages))
             = Inl (TypeError ''iso6393'')"
      by (intro forEach_group_crash[of s ms]) simp_all
    with a have c: "fst (generate e topLanguages tri p) = Crashed (TypeError ''iso6393'')"
      by (simp add: generate_def)
    then obtain tri' where "generate e topLanguages tri p = (Crashed (TypeError ''iso6393''), tri')"
      by (cases "generate e topLanguages tri p") simp
    then have "snd (forEach_generate e topLanguages tri (p # ps)) = (Some (TypeError ''iso6393''), [])"
      by simp
    with c show "fst (generate e topLanguages tri p) = Crashed (TypeError ''iso6393'')
          \<and> snd (forEach_generate e topLanguages tri (p # ps)) = (Some (TypeError ''iso6393''), [])"
      by simp
  qed
qed

theorem empty_group_crashes_witness:
  "threshold (packages example_env ! 4) = Some (- 1) \<and> (- 1::int) \<noteq> 0
   \<and> includedlanguages (packages example_env ! 4) = Some [''yue'']
   \<and> (''Han'', [example_top ! 5])
         \<in> set (createTopLanguagesByScript (package_list (- 1) (packages example_env ! 4) example_top))
   \<and> group_languages [example_top ! 5] = []
   \<and> group_step (createExpressions example_env) ([], [], []) (''Han'', [example_top ! 5])
         = Inl (TypeError ''iso6393'')
   \<and> fst (generate example_env example_top (trigrams example_env) (packages example_env ! 4))
         = Crashed (TypeError ''iso6393'')
   \<and> snd (forEach_generate example_env example_top (trigrams example_env)
            [packages example_env ! 4])
         = (Some (TypeError ''iso6393''), [])"
proof -
  have h1: "threshold (packages example_env ! 4) = Some (- 1)" by code_simp
  have h2: "(- 1::int) \<noteq> 0" by simp
  have h3: "(''Han'', [example_top ! 5])
         \<in> set (createTopLanguagesByScript (package_list (- 1) (packages example_env ! 4) example_top))"
    by code_simp
  have h4: "group_languages [example_top ! 5] = []" by code_simp
  have h5: "includedlanguages (packages example_env ! 4) = Some [''yue'']" by code_simp
  note t = empty_group_crashes[of "createExpressions example_env" "([], [], [])" "''Han''"
      "[example_top ! 5]" "packages example_env ! 4" "- 1" example_top example_env
      "trigrams example_env" "[]"]
  from t h4 obtain err where
    "group_step (createExpressions example_env) ([], [], []) (''Han'', [example_top ! 5]) = Inl err"
    by blast
  with group_step_error[OF this]
  have g: "group_step (createExpressions example_env) ([], [], []) (''Han'', [example_top ! 5])
         = Inl (TypeError ''iso6393'')" by simp
  from t h1 h2 h3 h4 h5 g show ?thesis by simp
qed

lemma map_of_foldl_update:
  "map_of (foldl (\<lambda>res k. AList.update k (f k) res) acc xs) s =
     (if s \<in> set xs then Some (f s) else map_of acc s)"
  by (induction xs arbitrary: acc) (auto simp: update_conv')

lemma map_of_createExpressions:
  "map_of (createExpressions e) s =
     (if s \<in> set (script_names e) then Some (RegExp (regex_source e s) ''g'') else None)"
  by (simp add: createExpressions_def map_of_foldl_update)

lemma foldl_member_step_store: "fst (foldl member_step (tri, sp, obj) ms) = tri"
proof (induction ms rule: rev_induct)
  case Nil
  then show ?case by simp
next
  case (snoc x xs)
  then obtain s' o' where "foldl member_step (tri, sp, obj) xs = (tri, s', o')"
    by (cases "foldl member_step (tri, sp, obj) xs") auto
  then show ?case
    by (simp add: member_step_pure split: option.splits)
qed

lemma forEach_script_store: "fst (forEach_script (tri, sp, d) ps) = tri"
proof (induction ps arbitrary: sp d)
  case Nil
  then show ?case by simp
next
  case (Cons g ps)
  obtain s ms where g: "g = (s, ms)" by (cases g)
  from foldl_member_step_store[of tri sp "[]" ms]
  obtain s' o' where "foldl member_step (tri, sp, []) ms = (tri, s', o')"
    by (cases "foldl member_step (tri, sp, []) ms") auto
  with Cons.IH show ?case by (simp add: g)
qed

lemma generate_store: "snd (generate e topLanguages tri p) = tri"
proof (cases "threshold p")
  case None
  then show ?thesis by (simp add: generate_def)
next
  case (Some t)
  show ?thesis
  proof (cases "t = 0")
    case True
    with Some show ?thesis by (simp add: generate_def)
  next
    case False
    show ?thesis
    proof (cases "forEach_group (createExpressions e) ([], [], [])
                    (createTopLanguagesByScript (package_list t p topLanguages))")
      case (Inl err)
      with Some False show ?thesis by (simp add: generate_def)
    next
      case (Inr st)
      obtain support1 regs perScript where st: "st = (support1, regs, perScript)"
        by (cases st)
      from forEach_script_store[of tri support1 "[]" perScript]
      obtain support2 d where "forEach_script (tri, support1, []) perScript = (tri, support2, d)"
        by (cases "forEach_script (tri, support1, []) perScript") auto
      with Some False Inr st show ?thesis
        by (simp add: generate_def split: sum.splits)
    qed
  qed
qed

lemma generate_Built:
  assumes "fst (generate e topLanguages tri p) = Built a"
  obtains t support1 regs perScript tri' support2 d regs' where
    "threshold p = Some t" "t \<noteq> 0"
    "forEach_group (createExpressions e) ([], [], [])
       (createTopLanguagesByScript (package_list t p topLanguages)) = Inr (support1, regs, perScript)"
    "forEach_script (tri, support1, []) perScript = (tri', support2, d)"
    "push_japanese (createExpressions e) regs = Inr regs'"
    "a = \<lparr>regularExpressions = regs', data = d,
          support = Array_sort (sort_engine e) sort_fn support2\<rparr>"
  using assms
  by (auto simp: generate_def split: option.splits if_splits sum.splits prod.splits)

lemma push_japanese_Inr:
  assumes "push_japanese (createExpressions e) regs = Inr regs'"
  shows "regs' = AList.update ''jpn''
           (Some (RegExp (regex_source e ''Hiragana'' @ ''|'' @ regex_source e ''Katakana'') ''g''))
           regs"
  using assms
  by (auto simp: push_japanese_def map_of_createExpressions split: option.splits if_splits)

lemma push_japanese_ok:
  assumes "''Hiragana'' \<in> set (script_names e)" and "''Katakana'' \<in> set (script_names e)"
  shows "\<exists>regs'. push_japanese (createExpressions e) regs = Inr regs'"
  using assms by (simp add: push_japanese_def map_of_createExpressions)

lemma example_franc_built:
  "fst (generate example_env example_top (trigrams example_env) (packages example_env ! 0))
     = Built example_franc"
  by code_simp

text \<open>
  C8. Whatever the threshold and the allow-list of the package, the
  \<open>regularExpressions\<close> that \<open>generate\<close> builds hold, under the key \<open>jpn\<close>, the
  global pattern whose source is the Hiragana class, a bar, and the Katakana class;
  and \<open>generate\<close> does build its artifacts for every package with a threshold
  other than zero, no script group emptied by the removal of \<open>npi\<close> and \<open>yue\<close>,
  and both scripts in the script table.
\<close>

theorem japanese_entry:
  "(fst (generate e topLanguages tri p) = Built a \<longrightarrow>
      map_of (regularExpressions a) ''jpn'' =
        Some (Some (RegExp (regex_source e ''Hiragana'' @ ''|'' @ regex_source e ''Katakana'') ''g'')))
   \<and> (threshold p = Some t \<and> t \<noteq> 0
        \<and> (\<forall>(s, ms) \<in> set (createTopLanguagesByScript (package_list t p topLanguages)).
              group_languages ms \<noteq> [])
        \<and> ''Hiragana'' \<in> set (script_names e) \<and> ''Katakana'' \<in> set (script_names e)
      \<longrightarrow> (\<exists>b. fst (generate e topLanguages tri p) = Built b))"
proof (intro conjI impI)
  assume "fst (generate e topLanguages tri p) = Built a"
  then obtain regs regs' where "push_japanese (createExpressions e) regs = Inr regs'"
    and "regularExpressions a = regs'"
    by (rule generate_Built) simp
  with push_japanese_Inr[of e regs regs']
  show "map_of (regularExpressions a) ''jpn'' =
        Some (Some (RegExp (regex_source e ''Hiragana'' @ ''|'' @ regex_source e ''Katakana'') ''g''))"
    by (simp add: update_conv')
next
  assume h: "threshold p = Some t \<and> t \<noteq> 0
        \<and> (\<forall>(s, ms) \<in> set (createTopLanguagesByScript (package_list t p topLanguages)).
              group_languages ms \<noteq> [])
        \<and> ''Hiragana'' \<in> set (script_names e) \<and> ''Katakana'' \<in> set (script_names e)"
  then obtain st where st: "forEach_group (createExpressions e) ([], [], [])
       (createTopLanguagesByScript (package_list t p topLanguages)) = Inr st"
    using forEach_group_ok by blast
  obtain support1 regs perScript where s: "st = (support1, regs, perScript)" by (cases st)
  obtain tri' support2 d where f: "forEach_script (tri, support1, []) perScript = (tri', support2, d)"
    by (cases "forEach_script (tri, support1, []) perScript")
  from h push_japanese_ok obtain regs' where "push_japanese (createExpressions e) regs = Inr regs'"
    by blast
  with h st s f show "\<exists>b. fst (generate e topLanguages tri p) = Built b"
    by (simp add: generate_def)
qed

theorem japanese_entry_witness:
  "fst (generate example_env example_top (trigrams example_env) (packages example_env ! 0))
     = Built example_franc
   \<and> threshold (packages example_env ! 0) = Some 1000000 \<and> (1000000::int) \<noteq> 0
   \<and> ''Hiragana'' \<in> set (script_names example_env)
   \<and> ''Katakana'' \<in> set (script_names example_env)
   \<and> map_of (regularExpressions example_franc) ''jpn''
       = Some (Some (RegExp ''[:Hiragana:]|[:Katakana:]'' ''g''))"
proof -
  have h1: "threshold (packages example_env ! 0) = Some 1000000" by code_simp
  have h2: "(1000000::int) \<noteq> 0" by simp
  have h3: "\<forall>(s, ms) \<in> set (createTopLanguagesByScript
               (package_list 1000000 (packages example_env ! 0) example_top)).
              group_languages ms \<noteq> []"
    by code_simp
  have h4: "''Hiragana'' \<in> set (script_names example_env)"
    and h5: "''Katakana'' \<in> set (script_names example_env)"
    by code_simp+
  have r: "regex_source example_env ''Hiragana'' @ ''|'' @ regex_source example_env ''Katakana''
             = ''[:Hiragana:]|[:Katakana:]''"
    by code_simp
  note t = japanese_entry[of example_env example_top "trigrams example_env"
      "packages example_env ! 0" example_franc 1000000]
  from t h1 h2 h3 h4 h5 obtain b where
    b: "fst (generate example_env example_top (trigrams example_env) (packages example_env ! 0))
          = Built b"
    by blast
  with example_franc_built have "b = example_franc" by simp
  with t b r h1 h2 h4 h5 show ?thesis by simp
qed

text \<open>
  C7. \<open>generate\<close> returns the trigram store as it received it, so what it does for
  a package (artifacts, nothing, or an exception) is the same after any other package
  as before it; and two packages that both complete write the same artifacts in either
  order.
\<close>

theorem packages_independent:
  "snd (generate e topLanguages tri p) = tri
   \<and> fst (generate e topLanguages (snd (generate e topLanguages tri q)) p)
       = fst (generate e topLanguages tri p)
   \<and> ((\<forall>err. fst (generate e topLanguages tri p) \<noteq> Crashed err)
        \<and> (\<forall>err. fst (generate e topLanguages tri q) \<noteq> Crashed err)
      \<longrightarrow> set (snd (snd (forEach_generate e topLanguages tri [p, q])))
            = set (snd (snd (forEach_generate e topLanguages tri [q, p]))))"
proof (intro conjI impI)
  show "snd (generate e topLanguages tri p) = tri" by (rule generate_store)
  show "fst (generate e topLanguages (snd (generate e topLanguages tri q)) p)
       = fst (generate e topLanguages tri p)"
    by (simp add: generate_store)
next
  assume a: "(\<forall>err. fst (generate e topLanguages tri p) \<noteq> Crashed err)
        \<and> (\<forall>err. fst (generate e topLanguages tri q) \<noteq> Crashed err)"
  obtain op where op: "generate e topLanguages tri p = (op, tri)"
    using generate_store[of e topLanguages tri p]
    by (cases "generate e topLanguages tri p") auto
  obtain oq where oq: "generate e topLanguages tri q = (oq, tri)"
    using generate_store[of e topLanguages tri q]
    by (cases "generate e topLanguages tri q") auto
  from a op oq show "set (snd (snd (forEach_generate e topLanguages tri [p, q])))
            = set (snd (snd (forEach_generate e topLanguages tri [q, p])))"
    by (cases op; cases oq) auto
qed

theorem packages_independent_witness:
  "fst (generate example_env example_top (trigrams example_env) (packages example_env ! 0))
     = Built example_franc
   \<and> (\<exists>b. fst (generate example_env example_top (trigrams example_env) (packages example_env ! 2))
         = Built b)
   \<and> snd (generate example_env example_top (trigrams example_env) (packages example_env ! 0))
       = trigrams example_env
   \<and> set (snd (snd (forEach_generate example_env example_top (trigrams example_env)
                      [packages example_env ! 0, packages example_env ! 2])))
       = set (snd (snd (forEach_generate example_env example_top (trigrams example_env)
                      [packages example_env ! 2, packages example_env ! 0])))"
proof -
  have q: "fst (generate example_env example_top (trigrams example_env) (packages example_env ! 2))
         = Built \<lparr>regularExpressions =
                    [(''eng'', Some (RegExp ''[:Latin:]'' ''g'')),
                     (''jpn'', Some (RegExp ''[:Hiragana:]|[:Katakana:]'' ''g''))],
                  data = [], support = [example_top ! 1]\<rparr>"
    by code_simp
  note t = packages_independent[of example_env example_top "trigrams example_env"
      "packages example_env ! 0" "packages example_env ! 2"]
  from t example_franc_built q show ?thesis by simp
qed

lemma foldl_member_step:
  "foldl member_step (tri, sp, obj) ms =
     (tri, sp @ with_trigrams tri ms, foldl (write_pattern tri) obj (with_trigrams tri ms))"
  by (induction ms arbitrary: sp obj)
     (auto simp: member_step_pure with_trigrams_def write_pattern_def Array_elements_def
           split: option.splits)

lemma forEach_script_closed:
  "forEach_script (tri, sp, d) ps =
     (tri, sp @ concat (map (\<lambda>g. with_trigrams tri (snd g)) ps),
      foldl (\<lambda>d g. AList.update (fst g) (foldl (write_pattern tri) [] (with_trigrams tri (snd g))) d)
        d ps)"
  by (induction ps arbitrary: sp d) (auto simp: foldl_member_step)

lemma map_of_foldl_groups_other:
  "k \<notin> fst ` set ps \<Longrightarrow>
     map_of (foldl (\<lambda>d g. AList.update (fst g) (F (snd g)) d) d ps) k = map_of d k"
  by (induction ps arbitrary: d) (auto simp: update_conv')

lemma map_of_foldl_groups:
  "distinct (map fst ps) \<Longrightarrow> (s, ms) \<in> set ps \<Longrightarrow>
     map_of (foldl (\<lambda>d g. AList.update (fst g) (F (snd g)) d) d ps) s = Some (F ms)"
proof (induction ps arbitrary: d)
  case Nil
  then show ?case by simp
next
  case (Cons g ps)
  show ?case
  proof (cases "g = (s, ms)")
    case True
    with Cons.prems have "s \<notin> fst ` set ps" by auto
    with True show ?thesis
      by (simp add: map_of_foldl_groups_other update_conv')
  next
    case False
    with Cons.prems have "(s, ms) \<in> set ps" "distinct (map fst ps)" by auto
    with Cons.IH show ?thesis by simp
  qed
qed

lemma keys_foldl_write:
  "fst ` set (foldl (write_pattern tri) obj xs) = fst ` set obj \<union> iso6393 ` set xs"
  by (induction xs arbitrary: obj) (auto simp: write_pattern_def dom_update)

lemma map_of_foldl_write_other:
  "\<forall>m' \<in> set xs. iso6393 m' \<noteq> c \<Longrightarrow> map_of (foldl (write_pattern tri) obj xs) c = map_of obj c"
  by (induction xs arbitrary: obj) (auto simp: write_pattern_def update_conv')

lemma map_of_foldl_write_last:
  "\<forall>m' \<in> set post. iso6393 m' \<noteq> iso6393 m \<Longrightarrow> tri (prop_key (udhr m)) = Some tg \<Longrightarrow>
     map_of (foldl (write_pattern tri) obj (pre @ m # post)) (iso6393 m) = Some (join ''|'' (rev tg))"
  by (simp add: map_of_foldl_write_other write_pattern_def update_conv' Array_elements_def)

lemma group_languages_subset: "set (group_languages ms) \<subseteq> set ms"
  by (auto simp: group_languages_def)

lemma group_step_inv:
  assumes inv: "group_inv (g # gs) st" and step: "group_step ex st g = Inr st'"
  shows "group_inv gs st'"
proof -
  obtain sp regs per where st: "st = (sp, regs, per)" by (cases st)
  obtain s ms where g: "g = (s, ms)" by (cases g)
  from inv have d: "distinct (map fst gs)" and sn: "s \<notin> fst ` set gs"
    and gm: "\<forall>(s', ms') \<in> set gs. \<forall>m \<in> set ms'. prop_key (script m) = s'"
    and ms: "\<forall>m \<in> set ms. prop_key (script m) = s"
    and pk: "fst ` set per \<inter> fst ` set gs = {}" and sp: "s \<notin> fst ` set per"
    and dp: "distinct (map fst per)"
    and pm: "\<forall>(s', l) \<in> set per. \<forall>m \<in> set l. prop_key (script m) = s'"
    and si: "\<forall>i \<in> set sp. prop_key (script i) \<notin> fst ` set gs \<and> prop_key (script i) \<noteq> s
                \<and> prop_key (script i) \<notin> fst ` set per \<and> iso6393 i \<in> fst ` set regs"
    by (auto simp: group_inv_def st g)
  show ?thesis
  proof (cases "length (group_languages ms) > 1")
    case True
    define regs1 where "regs1 = (case map_of regs s of
                         Some (Some r) \<Rightarrow> regs
                       | _ \<Rightarrow> AList.update s (map_of ex s) regs)"
    from True step have st': "st' = (sp, regs1, AList.update s (group_languages ms) per)"
      by (simp add: group_step_def st g Let_def regs1_def)
    have r1: "fst ` set regs \<subseteq> fst ` set regs1"
      by (auto simp: regs1_def dom_update split: option.splits)
    have p1: "\<forall>(s', l) \<in> set (AList.update s (group_languages ms) per).
                \<forall>m \<in> set l. prop_key (script m) = s'"
    proof (clarify)
      fix s' l m assume a: "(s', l) \<in> set (AList.update s (group_languages ms) per)" "m \<in> set l"
      from update_member[OF a(1)] show "prop_key (script m) = s'"
      proof
        assume "s' = s \<and> l = group_languages ms"
        with a(2) ms group_languages_subset show ?thesis by auto
      next
        assume "(s', l) \<in> set per"
        with a(2) pm show ?thesis by auto
      qed
    qed
    from d gm pk sn dp si r1 p1 show ?thesis
      by (auto simp: group_inv_def st' dom_update distinct_update)
  next
    case False
    with step obtain l rest where l: "group_languages ms = l # rest"
      by (cases "group_languages ms") (auto simp: group_step_def st g Let_def)
    with False step have st': "st' = (sp @ [l], AList.update (iso6393 l) (map_of ex s) regs, per)"
      by (simp add: group_step_def st g Let_def)
    from l group_languages_subset[of ms] have "l \<in> set ms" by auto
    with ms have ls: "prop_key (script l) = s" by simp
    from d gm pk sn sp dp pm si ls show ?thesis
      by (auto simp: group_inv_def st' dom_update)
  qed
qed

lemma forEach_group_inv:
  "group_inv gs st \<Longrightarrow> forEach_group ex st gs = Inr st' \<Longrightarrow> group_inv [] st'"
proof (induction gs arbitrary: st)
  case Nil
  then show ?case by simp
next
  case (Cons g gs)
  from Cons.prems(2) obtain st1 where s1: "group_step ex st g = Inr st1"
    and r: "forEach_group ex st1 gs = Inr st'"
    by (cases "group_step ex st g") auto
  from group_step_inv[OF Cons.prems(1) s1] r Cons.IH show ?case by blast
qed

lemma group_inv_initial: "group_inv (createTopLanguagesByScript xs) ([], [], [])"
  using byScript_distinct[of xs] byScript_script[of _ _ xs]
  by (auto simp: group_inv_def)

lemma group_step_untouched:
  assumes "group_step ex st (s0, ms) = Inr st1" and "s \<noteq> s0"
  shows "map_of (snd (snd st1)) s = map_of (snd (snd st)) s"
  using assms
  by (cases st)
     (auto simp: group_step_def Let_def update_conv' split: if_splits list.splits)

lemma forEach_group_untouched:
  "forEach_group ex st gs = Inr st' \<Longrightarrow> s \<notin> fst ` set gs \<Longrightarrow>
     map_of (snd (snd st')) s = map_of (snd (snd st)) s"
proof (induction gs arbitrary: st)
  case Nil
  then show ?case by simp
next
  case (Cons g gs)
  obtain s0 ms where g: "g = (s0, ms)" by (cases g)
  from Cons.prems(1) obtain st1 where s1: "group_step ex st (s0, ms) = Inr st1"
    and r: "forEach_group ex st1 gs = Inr st'"
    by (cases "group_step ex st g") (auto simp: g)
  from Cons.prems(2) g have "s \<noteq> s0" "s \<notin> fst ` set gs" by auto
  with Cons.IH[OF r] group_step_untouched[OF s1] show ?case by simp
qed

lemma forEach_group_perScript:
  "forEach_group ex st gs = Inr st' \<Longrightarrow> distinct (map fst gs) \<Longrightarrow> (s, ms) \<in> set gs \<Longrightarrow>
     length (group_languages ms) > 1 \<Longrightarrow> map_of (snd (snd st')) s = Some (group_languages ms)"
proof (induction gs arbitrary: st)
  case Nil
  then show ?case by simp
next
  case (Cons g gs)
  from Cons.prems(1) obtain st1 where s1: "group_step ex st g = Inr st1"
    and r: "forEach_group ex st1 gs = Inr st'"
    by (cases "group_step ex st g") auto
  show ?case
  proof (cases "g = (s, ms)")
    case True
    with Cons.prems(2) have "s \<notin> fst ` set gs" by auto
    from forEach_group_untouched[OF r this]
    have "map_of (snd (snd st')) s = map_of (snd (snd st1)) s" .
    also from s1 True Cons.prems(4) have "\<dots> = Some (group_languages ms)"
      by (cases st) (auto simp: group_step_def Let_def update_conv')
    finally show ?thesis .
  next
    case False
    with Cons.prems have "(s, ms) \<in> set gs" "distinct (map fst gs)" by auto
    from Cons.IH[OF r this(2) this(1) Cons.prems(4)] show ?thesis .
  qed
qed


lemma with_trigrams_append:
  "with_trigrams tri (xs @ ys) = with_trigrams tri xs @ with_trigrams tri ys"
  by (simp add: with_trigrams_def)

lemma generate_data:
  assumes b: "fst (generate e topLanguages tri p) = Built a"
  obtains t support1 regs per where
    "threshold p = Some t"
    "forEach_group (createExpressions e) ([], [], [])
       (createTopLanguagesByScript (package_list t p topLanguages)) = Inr (support1, regs, per)"
    "group_inv [] (support1, regs, per)"
    "fst ` set regs \<subseteq> fst ` set (regularExpressions a)"
    "set (support a) = set support1 \<union> (\<Union>g \<in> set per. set (with_trigrams tri (snd g)))"
    "data a = foldl (\<lambda>d g. AList.update (fst g)
                 (foldl (write_pattern tri) [] (with_trigrams tri (snd g))) d) [] per"
proof -
  from b obtain t support1 regs per tri' support2 d regs' where
    t: "threshold p = Some t"
    and fg: "forEach_group (createExpressions e) ([], [], [])
       (createTopLanguagesByScript (package_list t p topLanguages)) = Inr (support1, regs, per)"
    and fs: "forEach_script (tri, support1, []) per = (tri', support2, d)"
    and pj: "push_japanese (createExpressions e) regs = Inr regs'"
    and a: "a = \<lparr>regularExpressions = regs', data = d,
          support = Array_sort (sort_engine e) sort_fn support2\<rparr>"
    by (rule generate_Built)
  from forEach_group_inv[OF group_inv_initial fg] have inv: "group_inv [] (support1, regs, per)" .
  from push_japanese_Inr[OF pj] a have r: "fst ` set regs \<subseteq> fst ` set (regularExpressions a)"
    by (auto simp: dom_update)
  from fs have s2: "support2 = support1 @ concat (map (\<lambda>g. with_trigrams tri (snd g)) per)"
    and d: "d = foldl (\<lambda>d g. AList.update (fst g)
                 (foldl (write_pattern tri) [] (with_trigrams tri (snd g))) d) [] per"
    by (auto simp: forEach_script_closed)
  from s2 a have s: "set (support a) = set support1 \<union> (\<Union>g \<in> set per. set (with_trigrams tri (snd g)))"
    by (simp add: set_Array_sort)
  from t fg inv r s d a show ?thesis by (intro that) simp_all
qed

text \<open>
  C6, amended. In a script group with more than one language left, a member with
  trigram data that no later member of the group with the same code and trigram data
  follows has, under \<open>script -> code\<close> in \<open>data\<close>, its own trigram list reversed and
  joined with a bar. The entries are keyed by code, so of several members with one
  code the last one writes the entry.
\<close>

theorem trigram_entry:
  assumes "fst (generate e topLanguages tri p) = Built a"
    and "threshold p = Some t"
    and "(s, ms) \<in> set (createTopLanguagesByScript (package_list t p topLanguages))"
    and "length (group_languages ms) > 1"
    and "group_languages ms = pre @ m # post"
    and "tri (prop_key (udhr m)) = Some tg"
    and "\<forall>m' \<in> set post. iso6393 m' = iso6393 m \<longrightarrow> tri (prop_key (udhr m')) = None"
  shows "\<exists>obj. map_of (data a) s = Some obj \<and> map_of obj (iso6393 m) = Some (join ''|'' (rev tg))"
proof -
  let ?F = "\<lambda>l. foldl (write_pattern tri) [] (with_trigrams tri l)"
  from assms(1) obtain t' support1 regs per where
    t: "threshold p = Some t'"
    and fg: "forEach_group (createExpressions e) ([], [], [])
       (createTopLanguagesByScript (package_list t' p topLanguages)) = Inr (support1, regs, per)"
    and inv: "group_inv [] (support1, regs, per)"
    and d: "data a = foldl (\<lambda>d g. AList.update (fst g) (?F (snd g)) d) [] per"
    by (rule generate_data)
  from t assms(2) have tt: "t' = t" by simp
  from forEach_group_perScript[OF fg byScript_distinct] assms(3,4) tt
  have "map_of per s = Some (group_languages ms)" by simp
  then have mem: "(s, group_languages ms) \<in> set per" by (rule map_of_SomeD)
  from inv have dp: "distinct (map fst per)" by (simp add: group_inv_def)
  from map_of_foldl_groups[OF dp mem, of ?F "[]"] d
  have obj: "map_of (data a) s = Some (?F (group_languages ms))" by simp
  from assms(6) have wt: "with_trigrams tri (group_languages ms)
                     = with_trigrams tri pre @ m # with_trigrams tri post"
    by (simp add: assms(5) with_trigrams_def)
  from assms(7) have "\<forall>m' \<in> set (with_trigrams tri post). iso6393 m' \<noteq> iso6393 m"
    by (auto simp: with_trigrams_def)
  with map_of_foldl_write_last[where post = "with_trigrams tri post" and m = m and tri = tri
      and tg = tg and obj = "[]" and pre = "with_trigrams tri pre"] assms(6) wt
  have "map_of (?F (group_languages ms)) (iso6393 m) = Some (join ''|'' (rev tg))" by simp
  with obj show ?thesis by blast
qed

theorem trigram_entry_witness:
  "fst (generate example_env example_top (trigrams example_env) (packages example_env ! 0))
     = Built example_franc
   \<and> threshold (packages example_env ! 0) = Some 1000000
   \<and> (''Latin'', [example_top ! 1, example_top ! 2, example_top ! 3, example_top ! 7])
         \<in> set (createTopLanguagesByScript
                  (package_list 1000000 (packages example_env ! 0) example_top))
   \<and> group_languages [example_top ! 1, example_top ! 2, example_top ! 3, example_top ! 7]
       = [example_top ! 1, example_top ! 2] @ example_top ! 3 # [example_top ! 7]
   \<and> trigrams example_env (prop_key (udhr (example_top ! 3))) = Some [''de '', ''os '', ''ito'']
   \<and> iso6393 (example_top ! 3) = ''por'' \<and> iso6393 (example_top ! 7) = ''srp''
   \<and> map_of (the (map_of (data example_franc) ''Latin'')) ''por'' = Some ''ito|os |de ''"
proof -
  let ?ms = "[example_top ! 1, example_top ! 2, example_top ! 3, example_top ! 7]"
  have h2: "threshold (packages example_env ! 0) = Some 1000000" by code_simp
  have h3: "(''Latin'', ?ms) \<in> set (createTopLanguagesByScript
                  (package_list 1000000 (packages example_env ! 0) example_top))"
    by code_simp
  have h5: "group_languages ?ms = [example_top ! 1, example_top ! 2] @ example_top ! 3 # [example_top ! 7]"
    by code_simp
  then have h4: "length (group_languages ?ms) > 1" by simp
  have h6: "trigrams example_env (prop_key (udhr (example_top ! 3))) = Some [''de '', ''os '', ''ito'']"
    by code_simp
  have c: "iso6393 (example_top ! 3) = ''por''" "iso6393 (example_top ! 7) = ''srp''"
    by code_simp+
  then have h7: "\<forall>m' \<in> set [example_top ! 7]. iso6393 m' = iso6393 (example_top ! 3) \<longrightarrow>
                  trigrams example_env (prop_key (udhr m')) = None"
    by simp
  have j: "join ''|'' (rev [''de '', ''os '', ''ito'']) = ''ito|os |de ''" by code_simp
  from trigram_entry[OF example_franc_built h2 h3 h4 h5 h6 h7] c j
  have "map_of (the (map_of (data example_franc) ''Latin'')) ''por'' = Some ''ito|os |de ''"
    by auto
  with example_franc_built h2 h3 h5 h6 c show ?thesis by simp
qed

text \<open>
  C6 as stated fails: Portuguese has two declarations in the Latin group of the small
  run, both with trigram data; the entry \<open>Latin -> por\<close> is the reversed list of the
  second, and not the reversed list of the first.
\<close>

theorem trigram_entry_counterexample:
  "fst (generate example_env example_top (trigrams example_env) (packages example_env ! 0))
     = Built example_franc
   \<and> (''Latin'', [example_top ! 1, example_top ! 2, example_top ! 3, example_top ! 7])
         \<in> set (createTopLanguagesByScript
                  (package_list 1000000 (packages example_env ! 0) example_top))
   \<and> group_languages [example_top ! 1, example_top ! 2, example_top ! 3, example_top ! 7]
       = [example_top ! 1, example_top ! 2, example_top ! 3, example_top ! 7]
   \<and> iso6393 (example_top ! 2) = ''por''
   \<and> trigrams example_env (prop_key (udhr (example_top ! 2))) = Some [''de '', ''ito'', ''os '']
   \<and> join ''|'' (rev [''de '', ''ito'', ''os '']) = ''os |ito|de ''
   \<and> map_of (the (map_of (data example_franc) ''Latin'')) ''por'' = Some ''ito|os |de ''
   \<and> ''ito|os |de '' \<noteq> ''os |ito|de ''"
  by code_simp

lemma trigram_scripts_member:
  assumes "map_of (data a) s = Some obj" and "c \<in> fst ` set obj"
  shows "s \<in> set (trigram_scripts a c)"
proof -
  from assms(1) have "(s, obj) \<in> set (data a)" by (rule map_of_SomeD)
  with assms(2) show ?thesis by (force simp: trigram_scripts_def)
qed

lemma update_fresh: "k \<notin> fst ` set al \<Longrightarrow> AList.update k v al = al @ [(k, v)]"
  by (induction al) auto

lemma foldl_groups_closed:
  "distinct (map fst ps) \<Longrightarrow> fst ` set d \<inter> fst ` set ps = {} \<Longrightarrow>
     foldl (\<lambda>d g. AList.update (fst g) (F (snd g)) d) d ps = d @ map (\<lambda>g. (fst g, F (snd g))) ps"
proof (induction ps arbitrary: d)
  case Nil
  then show ?case by simp
next
  case (Cons g ps)
  from Cons.prems have f: "fst g \<notin> fst ` set d" by auto
  from Cons.prems have "distinct (map fst ps)"
    and "fst ` set (d @ [(fst g, F (snd g))]) \<inter> fst ` set ps = {}"
    by auto
  from Cons.IH[OF this] show ?case by (simp add: update_fresh[OF f])
qed

lemma filter_unique_key:
  assumes "distinct (map fst xs)" and "(s, v) \<in> set xs" and "P (s, v)"
    and "\<forall>x \<in> set xs. P x \<longrightarrow> fst x = s"
  shows "map fst (filter P xs) = [s]"
  using assms
proof (induction xs)
  case Nil
  then show ?case by simp
next
  case (Cons x xs)
  show ?case
  proof (cases "x = (s, v)")
    case True
    with Cons.prems(1) have ns: "s \<notin> fst ` set xs" by auto
    have "\<forall>y \<in> set xs. \<not> P y"
    proof
      fix y assume y: "y \<in> set xs"
      show "\<not> P y"
      proof
        assume "P y"
        with Cons.prems(4) y have "fst y = s" by simp
        moreover from y have "fst y \<in> fst ` set xs" by (rule imageI)
        ultimately show False using ns by simp
      qed
    qed
    then have "filter P xs = []" by (simp add: filter_empty_conv)
    with True Cons.prems(3) show ?thesis by simp
  next
    case False
    with Cons.prems(2) have m: "(s, v) \<in> set xs" by simp
    then have "s \<in> fst ` set xs" by (rule image_eqI[rotated]) simp
    with Cons.prems(1) have "fst x \<noteq> s" by auto
    with Cons.prems(4) have "\<not> P x" by auto
    moreover from Cons.prems have "map fst (filter P xs) = [s]"
      by (intro Cons.IH m) auto
    ultimately show ?thesis by simp
  qed
qed

lemma group_step_keys:
  assumes "group_step ex (sp, regs, per) g = Inr (sp', regs', per')"
    and "fst ` set regs \<subseteq> fst ` set per \<union> iso6393 ` set sp"
  shows "fst ` set regs' \<subseteq> fst ` set per' \<union> iso6393 ` set sp'"
proof -
  obtain s ms where g: "g = (s, ms)" by (cases g)
  show ?thesis
  proof (cases "length (group_languages ms) > 1")
    case True
    define regs1 where "regs1 = (case map_of regs s of
                         Some (Some r) \<Rightarrow> regs
                       | _ \<Rightarrow> AList.update s (map_of ex s) regs)"
    from True assms(1) have st: "sp' = sp" "regs' = regs1"
        "per' = AList.update s (group_languages ms) per"
      by (simp_all add: group_step_def g Let_def regs1_def)
    have kr: "fst ` set regs1 \<subseteq> insert s (fst ` set regs)"
      by (auto simp: regs1_def dom_update split: option.splits)
    have kp: "fst ` set per' = insert s (fst ` set per)"
      by (simp add: st dom_update)
    show ?thesis
    proof
      fix x assume "x \<in> fst ` set regs'"
      with kr st have "x = s \<or> x \<in> fst ` set regs" by auto
      with assms(2) have "x = s \<or> x \<in> fst ` set per \<or> x \<in> iso6393 ` set sp" by auto
      with kp st show "x \<in> fst ` set per' \<union> iso6393 ` set sp'" by auto
    qed
  next
    case False
    with assms(1) obtain l rest where l: "group_languages ms = l # rest"
      by (cases "group_languages ms") (auto simp: group_step_def g Let_def)
    with False assms(1) have st: "sp' = sp @ [l]"
        "regs' = AList.update (iso6393 l) (map_of ex s) regs" "per' = per"
      by (simp_all add: group_step_def g Let_def)
    have kr: "fst ` set regs' = insert (iso6393 l) (fst ` set regs)"
      by (simp add: st dom_update)
    show ?thesis
    proof
      fix x assume "x \<in> fst ` set regs'"
      with kr have "x = iso6393 l \<or> x \<in> fst ` set regs" by auto
      with assms(2) have "x = iso6393 l \<or> x \<in> fst ` set per \<or> x \<in> iso6393 ` set sp" by auto
      with st show "x \<in> fst ` set per' \<union> iso6393 ` set sp'" by auto
    qed
  qed
qed

lemma forEach_group_keys:
  "forEach_group ex (sp, regs, per) gs = Inr (sp', regs', per') \<Longrightarrow>
     fst ` set regs \<subseteq> fst ` set per \<union> iso6393 ` set sp \<Longrightarrow>
     fst ` set regs' \<subseteq> fst ` set per' \<union> iso6393 ` set sp'"
proof (induction gs arbitrary: sp regs per)
  case Nil
  then show ?case by simp
next
  case (Cons g gs)
  from Cons.prems(1) obtain st1 where s1: "group_step ex (sp, regs, per) g = Inr st1"
    and r: "forEach_group ex st1 gs = Inr (sp', regs', per')"
    by (cases "group_step ex (sp, regs, per) g") auto
  obtain sp1 regs1 per1 where st1: "st1 = (sp1, regs1, per1)" by (cases st1)
  from group_step_keys[OF s1[unfolded st1] Cons.prems(2)] r[unfolded st1] Cons.IH
  show ?case by blast
qed

lemma generate_keys:
  assumes b: "fst (generate e topLanguages tri p) = Built a"
  obtains support1 regs per where
    "group_inv [] (support1, regs, per)"
    "fst ` set regs \<subseteq> fst ` set (regularExpressions a)"
    "fst ` set (regularExpressions a) \<subseteq> insert ''jpn'' (fst ` set per \<union> iso6393 ` set support1)"
    "set (support a) = set support1 \<union> (\<Union>g \<in> set per. set (with_trigrams tri (snd g)))"
    "data a = map (\<lambda>g. (fst g, foldl (write_pattern tri) [] (with_trigrams tri (snd g)))) per"
proof -
  let ?F = "\<lambda>l. foldl (write_pattern tri) [] (with_trigrams tri l)"
  from b obtain t support1 regs per tri' support2 d regs' where
    fg: "forEach_group (createExpressions e) ([], [], [])
       (createTopLanguagesByScript (package_list t p topLanguages)) = Inr (support1, regs, per)"
    and fs: "forEach_script (tri, support1, []) per = (tri', support2, d)"
    and pj: "push_japanese (createExpressions e) regs = Inr regs'"
    and a: "a = \<lparr>regularExpressions = regs', data = d,
          support = Array_sort (sort_engine e) sort_fn support2\<rparr>"
    by (rule generate_Built)
  from forEach_group_inv[OF group_inv_initial fg] have inv: "group_inv [] (support1, regs, per)" .
  then have dp: "distinct (map fst per)" by (simp add: group_inv_def)
  from forEach_group_keys[OF fg]
  have k: "fst ` set regs \<subseteq> fst ` set per \<union> iso6393 ` set support1" by simp
  from push_japanese_Inr[OF pj] a
  have r1: "fst ` set regs \<subseteq> fst ` set (regularExpressions a)"
    and r2: "fst ` set (regularExpressions a) \<subseteq> insert ''jpn'' (fst ` set regs)"
    by (auto simp: dom_update)
  from fs have s2: "support2 = support1 @ concat (map (\<lambda>g. with_trigrams tri (snd g)) per)"
    and d: "d = foldl (\<lambda>d g. AList.update (fst g) (?F (snd g)) d) [] per"
    by (auto simp: forEach_script_closed)
  from s2 a have s: "set (support a) = set support1 \<union> (\<Union>g \<in> set per. set (with_trigrams tri (snd g)))"
    by (simp add: set_Array_sort)
  from d a foldl_groups_closed[OF dp, of "[]" ?F]
  have dm: "data a = map (\<lambda>g. (fst g, ?F (snd g))) per" by simp
  from r2 k have r3: "fst ` set (regularExpressions a)
                        \<subseteq> insert ''jpn'' (fst ` set per \<union> iso6393 ` set support1)"
    by blast
  from inv r1 r3 s dm show ?thesis by (rule that)
qed

text \<open>
  A code is not always alone under its key: the Japanese entry is written for every
  package, so a package whose universe has two Japanese declarations holds \<open>jpn\<close>
  both as a key of \<open>regularExpressions\<close> and under its script in \<open>data\<close>; and the
  names of the scripts with several languages are keys of \<open>regularExpressions\<close> too.
\<close>

lemma japanese_in_group_example:
  "fst (generate example_env example_japanese_top example_japanese_trigrams
          (packages example_env ! 3)) = Built example_japanese
   \<and> own_pattern example_japanese ''jpn''
   \<and> trigram_scripts example_japanese ''jpn'' = [''Hiragana, Katakana, and Han'']"
  by code_simp

text \<open>
  C1, amended. Every entry of the final support list has a mechanism through its own
  script, so never neither: when \<open>data\<close> has no object for the entry's script, the
  entry's code is a key of \<open>regularExpressions\<close>; otherwise its code is a key of the
  object that \<open>data\<close> holds for its script. And a code all of whose support entries
  have one script has exactly one mechanism, never both: its own key in
  \<open>regularExpressions\<close> and no entry in \<open>data\<close>, or no key of its own and an entry
  under exactly one script of \<open>data\<close>, its own. This is for a code that is not the
  name of a script in \<open>data\<close>, and not \<open>jpn\<close> in a group of several languages.
\<close>

theorem coverage_exactly_one:
  assumes "fst (generate e topLanguages tri p) = Built a"
    and "i \<in> set (support a)"
  shows "(case map_of (data a) (prop_key (script i)) of
            None \<Rightarrow> own_pattern a (iso6393 i)
          | Some obj \<Rightarrow> iso6393 i \<in> fst ` set obj)
         \<and> (own_pattern a (iso6393 i) \<or> trigram_scripts a (iso6393 i) \<noteq> [])
         \<and> ((\<forall>j \<in> set (support a). iso6393 j = iso6393 i \<longrightarrow>
                  prop_key (script j) = prop_key (script i))
              \<and> iso6393 i \<notin> fst ` set (data a)
              \<and> (iso6393 i = ''jpn'' \<longrightarrow> map_of (data a) (prop_key (script i)) = None)
            \<longrightarrow> (own_pattern a (iso6393 i) \<and> trigram_scripts a (iso6393 i) = [])
                \<or> (\<not> own_pattern a (iso6393 i)
                    \<and> trigram_scripts a (iso6393 i) = [prop_key (script i)]))"
proof -
  let ?F = "\<lambda>l. foldl (write_pattern tri) [] (with_trigrams tri l)"
  let ?c = "iso6393 i" and ?s = "prop_key (script i)"
  let ?P = "\<lambda>(s, obj). ?c \<in> set (map fst obj)"
  from assms(1) obtain support1 regs per where
    inv: "group_inv [] (support1, regs, per)"
    and r: "fst ` set regs \<subseteq> fst ` set (regularExpressions a)"
    and k: "fst ` set (regularExpressions a)
              \<subseteq> insert ''jpn'' (fst ` set per \<union> iso6393 ` set support1)"
    and s: "set (support a) = set support1 \<union> (\<Union>g \<in> set per. set (with_trigrams tri (snd g)))"
    and dm: "data a = map (\<lambda>g. (fst g, ?F (snd g))) per"
    by (rule generate_keys)
  from inv have dp: "distinct (map fst per)"
    and gm: "\<And>g m. g \<in> set per \<Longrightarrow> m \<in> set (snd g) \<Longrightarrow> prop_key (script m) = fst g"
    and sg: "\<And>l. l \<in> set support1 \<Longrightarrow> prop_key (script l) \<notin> fst ` set per"
    and so: "\<And>l. l \<in> set support1 \<Longrightarrow> iso6393 l \<in> fst ` set regs"
    by (auto simp: group_inv_def)
  from dm have dk: "map fst (data a) = map fst per" by simp
  have look: "map_of (data a) (fst g) = Some (?F (snd g))" if "g \<in> set per" for g
  proof -
    from that dm have "(fst g, ?F (snd g)) \<in> set (data a)" by auto
    moreover from dp dk have "distinct (map fst (data a))" by simp
    ultimately show ?thesis by (rule map_of_is_SomeI[rotated])
  qed
  have miss: "map_of (data a) x = None" if "x \<notin> fst ` set per" for x
    using that dk by (metis map_of_eq_None_iff set_map)
  have c1: "case map_of (data a) ?s of None \<Rightarrow> own_pattern a ?c | Some obj \<Rightarrow> ?c \<in> fst ` set obj"
  proof (cases "i \<in> set support1")
    case True
    with sg so r miss show ?thesis by (auto simp: own_pattern_def)
  next
    case False
    with assms(2) s obtain g where g: "g \<in> set per" "i \<in> set (with_trigrams tri (snd g))"
      by auto
    then have "i \<in> set (snd g)" by (simp add: with_trigrams_def)
    from gm[OF g(1) this] have "?s = fst g" .
    with look[OF g(1)] g(2) show ?thesis by (simp add: keys_foldl_write)
  qed
  then have c2: "own_pattern a ?c \<or> trigram_scripts a ?c \<noteq> []"
    using trigram_scripts_member[of a ?s _ ?c]
    by (cases "map_of (data a) ?s") auto
  have c3: "(own_pattern a ?c \<and> trigram_scripts a ?c = [])
             \<or> (\<not> own_pattern a ?c \<and> trigram_scripts a ?c = [?s])"
    if h1: "\<forall>j \<in> set (support a). iso6393 j = ?c \<longrightarrow> prop_key (script j) = ?s"
      and h2: "?c \<notin> fst ` set (data a)"
      and h3: "?c = ''jpn'' \<longrightarrow> map_of (data a) ?s = None"
  proof -
    have only: "fst x = ?s \<and> ?s \<in> fst ` set per" if x: "x \<in> set (data a)" and px: "?P x" for x
    proof -
      from x dm obtain g where g: "g \<in> set per" "x = (fst g, ?F (snd g))" by auto
      with px have "?c \<in> iso6393 ` set (with_trigrams tri (snd g))"
        by (simp add: keys_foldl_write)
      then obtain m where m: "m \<in> set (with_trigrams tri (snd g))" "iso6393 m = ?c" by auto
      with g(1) s have "m \<in> set (support a)" by auto
      with h1 m(2) have "prop_key (script m) = ?s" by simp
      moreover from m(1) have "m \<in> set (snd g)" by (simp add: with_trigrams_def)
      from gm[OF g(1) this] have "prop_key (script m) = fst g" .
      ultimately have "fst g = ?s" by simp
      moreover from g(1) have "fst g \<in> fst ` set per" by (rule imageI)
      ultimately show ?thesis using g(2) by simp
    qed
    show ?thesis
    proof (cases "i \<in> set support1")
      case True
      from sg[OF True] only have "\<forall>x \<in> set (data a). \<not> ?P x" by blast
      then have "trigram_scripts a ?c = []"
        by (simp add: trigram_scripts_def filter_empty_conv)
      moreover from so[OF True] r have "own_pattern a ?c" by (auto simp: own_pattern_def)
      ultimately show ?thesis by simp
    next
      case False
      with assms(2) s obtain g where g: "g \<in> set per" "i \<in> set (with_trigrams tri (snd g))"
        by auto
      then have "i \<in> set (snd g)" by (simp add: with_trigrams_def)
      from gm[OF g(1) this] have sk: "?s = fst g" .
      from g(1) dm have mem: "(?s, ?F (snd g)) \<in> set (data a)" by (auto simp: sk)
      from g(2) have pm: "?P (?s, ?F (snd g))" by (simp add: keys_foldl_write)
      from dp dk have dd: "distinct (map fst (data a))" by simp
      from only have "\<forall>x \<in> set (data a). ?P x \<longrightarrow> fst x = ?s" by blast
      from filter_unique_key[OF dd mem pm this]
      have ts: "trigram_scripts a ?c = [?s]" by (simp add: trigram_scripts_def)
      have "\<not> own_pattern a ?c"
      proof
        assume "own_pattern a ?c"
        with k have "?c = ''jpn'' \<or> ?c \<in> fst ` set per \<or> ?c \<in> iso6393 ` set support1"
          by (auto simp: own_pattern_def)
        then show False
        proof (elim disjE)
          assume "?c = ''jpn''"
          with h3 look[OF g(1)] sk show False by simp
        next
          assume "?c \<in> fst ` set per"
          with h2 dk show False by (metis set_map)
        next
          assume "?c \<in> iso6393 ` set support1"
          then obtain l where l: "l \<in> set support1" "iso6393 l = ?c" by auto
          with s h1 have "prop_key (script l) = ?s" by auto
          with sg[OF l(1)] g(1) sk show False by auto
        qed
      qed
      with ts show ?thesis by simp
    qed
  qed
  from c1 c2 c3 show ?thesis by blast
qed

theorem coverage_exactly_one_witness:
  "fst (generate example_env example_top (trigrams example_env) (packages example_env ! 0))
     = Built example_franc
   \<and> example_top ! 1 \<in> set (support example_franc)
   \<and> iso6393 (example_top ! 1) = ''eng'' \<and> prop_key (script (example_top ! 1)) = ''Latin''
   \<and> ''eng'' \<notin> fst ` set (data example_franc) \<and> ''eng'' \<noteq> ''jpn''
   \<and> \<not> own_pattern example_franc ''eng''
   \<and> trigram_scripts example_franc ''eng'' = [''Latin'']
   \<and> ''eng'' \<in> fst ` set (the (map_of (data example_franc) ''Latin''))"
proof -
  have h2: "example_top ! 1 \<in> set (support example_franc)" by code_simp
  have c: "iso6393 (example_top ! 1) = ''eng''" "prop_key (script (example_top ! 1)) = ''Latin''"
    by code_simp+
  have h3: "\<forall>j \<in> set (support example_franc). iso6393 j = iso6393 (example_top ! 1) \<longrightarrow>
              prop_key (script j) = prop_key (script (example_top ! 1))"
    by code_simp
  have h4: "''eng'' \<notin> fst ` set (data example_franc)" by code_simp
  have h5: "''eng'' \<noteq> ''jpn''" by simp
  have o: "\<not> own_pattern example_franc ''eng''" by code_simp
  have d: "map_of (data example_franc) ''Latin''
             = Some [(''eng'', ''ing|and|the''), (''por'', ''ito|os |de ''), (''srp'', ''je |na '')]"
    by code_simp
  from coverage_exactly_one[OF example_franc_built h2] c h3 h4 o d
  have "trigram_scripts example_franc ''eng'' = [''Latin'']
        \<and> ''eng'' \<in> fst ` set (the (map_of (data example_franc) ''Latin''))"
    by simp
  with example_franc_built h2 c h4 h5 o show ?thesis by simp
qed

text \<open>
  C1 as stated fails: Serbian has a Latin and a Cyrillic declaration, both in groups
  of several languages, and its code is a key under two scripts of \<open>data\<close>.
\<close>

theorem coverage_counterexample:
  "fst (generate example_env example_top (trigrams example_env) (packages example_env ! 0))
     = Built example_franc
   \<and> example_top ! 7 \<in> set (support example_franc)
   \<and> iso6393 (example_top ! 7) = ''srp''
   \<and> \<not> own_pattern example_franc ''srp''
   \<and> trigram_scripts example_franc ''srp'' = [''Latin'', ''Cyrillic'']"
  by code_simp

end
